theory Spec2Isabelle
  imports Main "HOL-Library.Word"
begin

section \<open>Machine integers and strings\<close>

text \<open>
  Go's \<open>int64\<close> and \<open>uint64\<close> are 64-bit words (\<open>sint\<close> reads the signed value,
  \<open>unat\<close> the unsigned one; \<open>+\<close>, \<open>-\<close>, \<open>*\<close> wrap around as in Go), \<open>int32\<close> is a
  32-bit word. A Go string is a sequence of bytes: \<open>string\<close>, with \<open>length\<close> for
  \<open>len\<close>.
\<close>

type_synonym int64 = "64 word"
type_synonym uint64 = "64 word"
type_synonym int32 = "32 word"

definition MaxInt64 :: int64 where
  "MaxInt64 = 9223372036854775807"

definition MinInt64 :: int64 where
  "MinInt64 = - 9223372036854775808"

section \<open>Failures\<close>

text \<open>errors.go: the two public failure kinds.\<close>

datatype money_error = ErrCurrencyMismatch | ErrInvalidOperation

text \<open>
  The failures inside package calc: \<open>errOverflow\<close> of round.go, the
  \<open>"scale overflow"\<close> error of \<open>multiply\<close>, and the failures reported by the
  decimal engine.
\<close>

datatype decimal_error = errScaleRange | errDecimalOverflow | errDivisionByZero

datatype calc_error = errOverflow | errScaleOverflow | errDecimal decimal_error

section \<open>Overflow-checked integer primitives (package calc)\<close>

text \<open>
  \<open>pow10Int64\<close>: the loop \<open>for i := 0; i < scale; i++\<close> runs \<open>scale\<close> times unless
  it returns early; \<open>pow10_loop n v\<close> is the loop with \<open>n\<close> iterations left.
\<close>

fun pow10_loop :: "nat \<Rightarrow> int64 \<Rightarrow> int64 \<times> bool" where
  "pow10_loop 0 v = (v, True)"
| "pow10_loop (Suc n) v =
     (if sint v > sint MaxInt64 div 10 then (0, False) else pow10_loop n (v * 10))"

definition pow10Int64 :: "int32 \<Rightarrow> int64 \<times> bool" where
  "pow10Int64 sc = (if sint sc < 0 then (0, False) else pow10_loop (nat (sint sc)) 1)"

text \<open>\<open>absInt64\<close>: the absolute value as \<open>uint64\<close>.\<close>

definition absInt64 :: "int64 \<Rightarrow> uint64" where
  "absInt64 x =
     (if sint x \<ge> 0 then x
      else if x = MinInt64 then MaxInt64 + 1
      else - x)"

text \<open>
  \<open>mulInt64\<close>: the comparison \<open>absA > uint64(math.MaxInt64)/absB\<close> and the product
  \<open>absA * absB\<close> are unsigned (\<open><\<close> and \<open>div\<close> on words are unsigned); the test
  \<open>(a < 0) != (b < 0)\<close> is signed.
\<close>

definition mulInt64 :: "int64 \<Rightarrow> int64 \<Rightarrow> int64 \<times> bool" where
  "mulInt64 a b =
     (if a = 0 \<or> b = 0 then (0, True)
      else if a = MinInt64 \<and> b = 1 then (MinInt64, True)
      else if a = MinInt64 \<and> b = - 1 then (0, False)
      else if b = MinInt64 \<and> a = 1 then (MinInt64, True)
      else if b = MinInt64 \<and> a = - 1 then (0, False)
      else
        let absA = absInt64 a; absB = absInt64 b in
        if absA > MaxInt64 div absB then (0, False)
        else
          let product = absA * absB in
          ((if (sint a < 0) \<noteq> (sint b < 0) then - product else product), True))"

definition addInt64 :: "int64 \<Rightarrow> int64 \<Rightarrow> int64 \<times> bool" where
  "addInt64 a b =
     (if sint b > 0 \<and> sint a > sint (MaxInt64 - b) then (0, False)
      else if sint b < 0 \<and> sint a < sint (MinInt64 - b) then (0, False)
      else (a + b, True))"

definition combineInt64 :: "int64 \<Rightarrow> int64 \<Rightarrow> int32 \<Rightarrow> calc_error + int64" where
  "combineInt64 whole frac sc =
     (if sint sc < 0 then Inl errOverflow
      else if sc = 0 then Inr whole
      else
        case pow10Int64 sc of
          (_, False) \<Rightarrow> Inl errOverflow
        | (factor, True) \<Rightarrow>
            (case mulInt64 whole factor of
               (_, False) \<Rightarrow> Inl errOverflow
             | (product, True) \<Rightarrow>
                 (case addInt64 product frac of
                    (_, False) \<Rightarrow> Inl errOverflow
                  | (res, True) \<Rightarrow> Inr res)))"

section \<open>The decimal engine\<close>

text \<open>
  Package calc computes on \<open>decimal.Decimal\<close> of github.com/govalues/decimal, a
  dependency whose source is not part of the repository. The definitions of this
  section model the operations the repository calls (\<open>New\<close>, \<open>Add\<close>, \<open>Sub\<close>,
  \<open>MulExact\<close>, \<open>QuoExact\<close>, \<open>Cmp\<close>, \<open>Round\<close>, \<open>Int64\<close>, \<open>Scale\<close>) after the
  spec (exact decimals, a maximum supported scale, rounding half to even, division
  by zero and scale overflow reported as failures) and the engine's documented
  contract: a decimal is a sign, a coefficient of at most 19 decimal digits and a
  scale between 0 and 19; a result that does not fit is rounded half to even to 19
  digits, and fails when the digits lost are integer digits or digits that the
  operation was asked to keep.
\<close>

record Decimal =
  neg :: bool
  coef :: nat
  dscale :: nat

definition MaxPrec :: nat where "MaxPrec = 19"
definition MinScale :: int where "MinScale = 0"
definition MaxScale :: int where "MaxScale = 19"
definition maxFint :: nat where "maxFint = 9999999999999999999"

text \<open>Modelled from the spec: the number of decimal digits of a coefficient
  (0 for 0); the decimal engine is not under src/.\<close>

fun prec :: "nat \<Rightarrow> nat" where
  "prec n = (if n = 0 then 0 else Suc (prec (n div 10)))"

declare prec.simps [simp del]

text \<open>Modelled from the spec: \<open>x / 10^shift\<close> rounded half to even; the decimal
  engine is not under src/.\<close>

definition rshHalfEven :: "nat \<Rightarrow> nat \<Rightarrow> nat" where
  "rshHalfEven x shift =
     (let y = 10 ^ shift; z = x div y; r = x mod y in
      if y < 2 * r \<or> (y = 2 * r \<and> odd z) then z + 1 else z)"

text \<open>Modelled from the spec: the engine's constructors; zero is never negative,
  the scale must lie in \<open>[MinScale, MaxScale]\<close> and the coefficient must fit 19
  digits. The decimal engine is not under src/.\<close>

definition newUnsafe :: "bool \<Rightarrow> nat \<Rightarrow> nat \<Rightarrow> Decimal" where
  "newUnsafe ng c sc = \<lparr>neg = (if c = 0 then False else ng), coef = c, dscale = sc\<rparr>"

definition newSafe :: "bool \<Rightarrow> nat \<Rightarrow> int \<Rightarrow> decimal_error + Decimal" where
  "newSafe ng c sc =
     (if sc < MinScale \<or> sc > MaxScale then Inl errScaleRange
      else if c > maxFint then Inl errDecimalOverflow
      else Inr (newUnsafe ng c (nat sc)))"

text \<open>Modelled from the spec: fitting an exact result (any coefficient, any scale)
  into a decimal that keeps at least \<open>minScale\<close> fractional digits. One pass pads
  up to \<open>minScale\<close>, or rounds half to even down to the maximum scale or to 19
  digits; it fails when more integer digits remain than 19 digits can hold next to
  \<open>minScale\<close> fractional ones. Rounding 19 nines up gives a 20-digit coefficient,
  which a second pass fits. The decimal engine is not under src/.\<close>

definition fitPass :: "nat \<Rightarrow> int \<Rightarrow> int \<Rightarrow> decimal_error + (nat \<times> int)" where
  "fitPass c sc minScale =
     (let p = int (prec c) in
      if p - sc > int MaxPrec - minScale then Inl errDecimalOverflow
      else if sc < minScale then Inr (c * 10 ^ nat (minScale - sc), minScale)
      else if sc \<ge> p \<and> sc > MaxScale then Inr (rshHalfEven c (nat (sc - MaxScale)), MaxScale)
      else if p > sc \<and> p > int MaxPrec
        then Inr (rshHalfEven c (nat (p - int MaxPrec)), int MaxPrec - (p - sc))
      else Inr (c, sc))"

definition newFromBint :: "bool \<Rightarrow> nat \<Rightarrow> int \<Rightarrow> int \<Rightarrow> decimal_error + Decimal" where
  "newFromBint ng c sc minScale =
     (case fitPass c sc minScale of
        Inl e \<Rightarrow> Inl e
      | Inr (c1, sc1) \<Rightarrow>
          if prec c1 = MaxPrec + 1 then
            (case fitPass c1 sc1 minScale of
               Inl e \<Rightarrow> Inl e
             | Inr (c2, sc2) \<Rightarrow> newSafe ng c2 sc2)
          else newSafe ng c1 sc1)"

text \<open>Modelled from the spec: \<open>decimal.New(value, scale)\<close>, the decimal
  \<open>value / 10^scale\<close>; it fails when the scale is negative or greater than the
  maximum scale. The decimal engine is not under src/.\<close>

definition decimal_New :: "int64 \<Rightarrow> int \<Rightarrow> decimal_error + Decimal" where
  "decimal_New v sc = newSafe (sint v < 0) (nat \<bar>sint v\<bar>) sc"

text \<open>The signed coefficient of a decimal, and the signed coefficient it has when
  written with \<open>sc\<close> fractional digits (\<open>sc\<close> at least its scale).\<close>

definition signedCoef :: "Decimal \<Rightarrow> int" where
  "signedCoef d = (if neg d then - int (coef d) else int (coef d))"

definition alignedCoef :: "Decimal \<Rightarrow> nat \<Rightarrow> int" where
  "alignedCoef d sc = signedCoef d * 10 ^ (sc - dscale d)"

text \<open>Modelled from the spec: \<open>d.Add(e)\<close> and \<open>d.Sub(e)\<close>, the exact sum and
  difference at the larger of the two scales, fitted with no fractional digit
  required. The decimal engine is not under src/.\<close>

definition decimal_Add :: "Decimal \<Rightarrow> Decimal \<Rightarrow> decimal_error + Decimal" where
  "decimal_Add d e =
     (let sc = max (dscale d) (dscale e);
          total = alignedCoef d sc + alignedCoef e sc in
      newFromBint (total < 0) (nat \<bar>total\<bar>) (int sc) 0)"

definition decimal_Neg :: "Decimal \<Rightarrow> Decimal" where
  "decimal_Neg d = newUnsafe (\<not> neg d) (coef d) (dscale d)"

definition decimal_Sub :: "Decimal \<Rightarrow> Decimal \<Rightarrow> decimal_error + Decimal" where
  "decimal_Sub d e = decimal_Add d (decimal_Neg e)"

text \<open>Modelled from the spec: \<open>d.MulExact(e, scale)\<close>, the exact product, which
  has the sum of the two scales, fitted so that at least \<open>scale\<close> fractional digits
  survive. The decimal engine is not under src/.\<close>

definition decimal_MulExact :: "Decimal \<Rightarrow> Decimal \<Rightarrow> int \<Rightarrow> decimal_error + Decimal" where
  "decimal_MulExact d e sc =
     (if sc < MinScale \<or> sc > MaxScale then Inl errScaleRange
      else newFromBint (neg d \<noteq> neg e) (coef d * coef e) (int (dscale d) + int (dscale e)) sc)"




text \<open>Modelled from the spec: \<open>d.Cmp(e)\<close>, the three-way comparison of the exact
  values. The decimal engine is not under src/.\<close>

definition decimal_Cmp :: "Decimal \<Rightarrow> Decimal \<Rightarrow> int" where
  "decimal_Cmp d e =
     (let sc = max (dscale d) (dscale e);
          x = alignedCoef d sc; y = alignedCoef e sc in
      if x < y then - 1 else if x > y then 1 else 0)"

text \<open>Modelled from the spec: \<open>d.Round(scale)\<close> rounds half to even to \<open>scale\<close>
  fractional digits (a negative scale counts as 0) and leaves a decimal that has
  no more digits than that unchanged. The decimal engine is not under src/.\<close>

definition decimal_Round :: "Decimal \<Rightarrow> int \<Rightarrow> Decimal" where
  "decimal_Round d sc =
     (let m = nat (max sc MinScale) in
      if m \<ge> dscale d then d
      else newUnsafe (neg d) (rshHalfEven (coef d) (dscale d - m)) m)"

text \<open>Modelled from the spec: \<open>d.Int64(scale)\<close> splits a decimal into its whole
  part and its fraction written with \<open>scale\<close> digits (rounded half to even if the
  decimal has more), both carrying the sign; it reports \<open>ok = false\<close> when the scale
  is out of range or a part does not fit \<open>int64\<close>. The decimal engine is not under
  src/.\<close>

definition decimal_Int64 :: "Decimal \<Rightarrow> int \<Rightarrow> int64 \<times> int64 \<times> bool" where
  "decimal_Int64 d sc =
     (if sc < MinScale \<or> sc > MaxScale then (0, 0, False)
      else
        let m = nat sc;
            x = (if m < dscale d then rshHalfEven (coef d) (dscale d - m) else coef d);
            y = (if m < dscale d then 10 ^ m else 10 ^ dscale d);
            q = x div y;
            r = (x mod y) * 10 ^ (m - dscale d) in
        if r > maxFint then (0, 0, False)
        else if neg d then
          (if q > 9223372036854775808 \<or> r > 9223372036854775808 then (0, 0, False)
           else (- word_of_nat q, - word_of_nat r, True))
        else
          (if q > 9223372036854775807 \<or> r > 9223372036854775807 then (0, 0, False)
           else (word_of_nat q, word_of_nat r, True)))"

section \<open>Package calc: rounding back to minor units\<close>

text \<open>round.go: \<open>roundToMinor\<close> and its exported name \<open>Round\<close>. The \<open>int32\<close> scale
  is converted with \<open>int(scale)\<close>, here \<open>sint\<close>.\<close>

definition roundToMinor :: "Decimal \<Rightarrow> int32 \<Rightarrow> calc_error + int64" where
  "roundToMinor d sc =
     (let rounded = decimal_Round d (sint sc) in
      case decimal_Int64 rounded (sint sc) of
        (_, _, False) \<Rightarrow> Inl errOverflow
      | (whole, frac, True) \<Rightarrow> combineInt64 whole frac sc)"

definition Round :: "Decimal \<Rightarrow> int32 \<Rightarrow> calc_error + int64" where
  "Round d sc = roundToMinor d sc"

section \<open>Package calc: amounts\<close>

record amount =
  dec :: Decimal

definition newAmount :: "int64 \<Rightarrow> int32 \<Rightarrow> calc_error + amount" where
  "newAmount v sc =
     (case decimal_New v (sint sc) of
        Inl err \<Rightarrow> Inl (errDecimal err)
      | Inr d \<Rightarrow> Inr \<lparr>dec = d\<rparr>)"

definition add :: "amount \<Rightarrow> amount \<Rightarrow> calc_error + amount" where
  "add a b =
     (case decimal_Add (dec a) (dec b) of
        Inl err \<Rightarrow> Inl (errDecimal err)
      | Inr d \<Rightarrow> Inr \<lparr>dec = d\<rparr>)"

definition sub :: "amount \<Rightarrow> amount \<Rightarrow> calc_error + amount" where
  "sub a b =
     (case decimal_Sub (dec a) (dec b) of
        Inl err \<Rightarrow> Inl (errDecimal err)
      | Inr d \<Rightarrow> Inr \<lparr>dec = d\<rparr>)"

text \<open>percent.go: \<open>base += percent\<close> and \<open>base -= percent\<close> are \<open>int64\<close> operations
  and wrap around.\<close>

definition percentMultiplier :: "int64 \<Rightarrow> bool \<Rightarrow> calc_error + Decimal" where
  "percentMultiplier percent ad =
     (let base = (if ad then 100 + percent else 100 - percent) in
      case decimal_New base 2 of
        Inl err \<Rightarrow> Inl (errDecimal err)
      | Inr d \<Rightarrow> Inr d)"

definition multiply :: "amount \<Rightarrow> Decimal \<Rightarrow> calc_error + amount" where
  "multiply a mult =
     (let sc = int (dscale (dec a)) + int (dscale mult) in
      if sc > MaxScale then Inl errScaleOverflow
      else case decimal_MulExact (dec a) mult sc of
             Inl err \<Rightarrow> Inl (errDecimal err)
           | Inr d \<Rightarrow> Inr \<lparr>dec = d\<rparr>)"

definition addPercent :: "amount \<Rightarrow> int64 \<Rightarrow> calc_error + amount" where
  "addPercent a percent =
     (case percentMultiplier percent True of
        Inl err \<Rightarrow> Inl err
      | Inr mult \<Rightarrow> multiply a mult)"

definition subtractPercent :: "amount \<Rightarrow> int64 \<Rightarrow> calc_error + amount" where
  "subtractPercent a percent =
     (case percentMultiplier percent False of
        Inl err \<Rightarrow> Inl err
      | Inr mult \<Rightarrow> multiply a mult)"


section \<open>Package calc: the arithmetic engine\<close>

definition Add :: "int64 \<Rightarrow> int64 \<Rightarrow> int32 \<Rightarrow> calc_error + int64" where
  "Add a b sc =
     (case newAmount a sc of
        Inl err \<Rightarrow> Inl err
      | Inr da \<Rightarrow>
          (case newAmount b sc of
             Inl err \<Rightarrow> Inl err
           | Inr db \<Rightarrow>
               (case add da db of
                  Inl err \<Rightarrow> Inl err
                | Inr sm \<Rightarrow> Round (dec sm) sc)))"

definition Sub :: "int64 \<Rightarrow> int64 \<Rightarrow> int32 \<Rightarrow> calc_error + int64" where
  "Sub a b sc =
     (case newAmount a sc of
        Inl err \<Rightarrow> Inl err
      | Inr da \<Rightarrow>
          (case newAmount b sc of
             Inl err \<Rightarrow> Inl err
           | Inr db \<Rightarrow>
               (case sub da db of
                  Inl err \<Rightarrow> Inl err
                | Inr diff \<Rightarrow> Round (dec diff) sc)))"

definition AddPercent :: "int64 \<Rightarrow> int64 \<Rightarrow> int32 \<Rightarrow> calc_error + int64" where
  "AddPercent v percent sc =
     (case newAmount v sc of
        Inl err \<Rightarrow> Inl err
      | Inr da \<Rightarrow>
          (case addPercent da percent of
             Inl err \<Rightarrow> Inl err
           | Inr out \<Rightarrow> Round (dec out) sc))"

definition SubtractPercent :: "int64 \<Rightarrow> int64 \<Rightarrow> int32 \<Rightarrow> calc_error + int64" where
  "SubtractPercent v percent sc =
     (case newAmount v sc of
        Inl err \<Rightarrow> Inl err
      | Inr da \<Rightarrow>
          (case subtractPercent da percent of
             Inl err \<Rightarrow> Inl err
           | Inr out \<Rightarrow> Round (dec out) sc))"

definition Compare :: "int64 \<Rightarrow> int64 \<Rightarrow> int32 \<Rightarrow> calc_error + int" where
  "Compare a b sc =
     (case newAmount a sc of
        Inl err \<Rightarrow> Inl err
      | Inr da \<Rightarrow>
          (case newAmount b sc of
             Inl err \<Rightarrow> Inl err
           | Inr db \<Rightarrow> Inr (decimal_Cmp (dec da) (dec db))))"

definition Mul :: "int64 \<Rightarrow> int64 \<Rightarrow> int32 \<Rightarrow> calc_error + int64" where
  "Mul v factor sc =
     (case newAmount v sc of
        Inl err \<Rightarrow> Inl err
      | Inr da \<Rightarrow>
          (case decimal_New factor 0 of
             Inl err \<Rightarrow> Inl (errDecimal err)
           | Inr mult \<Rightarrow>
               (case multiply da mult of
                  Inl err \<Rightarrow> Inl err
                | Inr out \<Rightarrow> Round (dec out) sc)))"


section \<open>Package money: currencies and money\<close>

record Currency =
  Code :: string
  Scale :: int32
  Symbol :: string

record Money =
  amount :: int64
  currency :: Currency

definition New :: "int64 \<Rightarrow> Currency \<Rightarrow> Money" where
  "New a c = \<lparr>amount = a, currency = c\<rparr>"

definition Zero :: "Currency \<Rightarrow> Money" where
  "Zero c = \<lparr>amount = 0, currency = c\<rparr>"

definition sameCurrency :: "Currency \<Rightarrow> Currency \<Rightarrow> bool" where
  "sameCurrency a b \<longleftrightarrow> Code a = Code b \<and> Scale a = Scale b \<and> Symbol a = Symbol b"

text \<open>The binary operations return \<open>(Money, error)\<close>; the zero \<open>Money{}\<close> that
  accompanies a failure carries no information, so a failure is \<open>Inl\<close> of its kind.\<close>

definition Money_Add :: "Money \<Rightarrow> Money \<Rightarrow> money_error + Money" where
  "Money_Add m x =
     (if \<not> sameCurrency (currency m) (currency x) then Inl ErrCurrencyMismatch
      else case Add (amount m) (amount x) (Scale (currency m)) of
             Inl _ \<Rightarrow> Inl ErrInvalidOperation
           | Inr a \<Rightarrow> Inr \<lparr>amount = a, currency = currency m\<rparr>)"

definition Money_Sub :: "Money \<Rightarrow> Money \<Rightarrow> money_error + Money" where
  "Money_Sub m x =
     (if \<not> sameCurrency (currency m) (currency x) then Inl ErrCurrencyMismatch
      else case Sub (amount m) (amount x) (Scale (currency m)) of
             Inl _ \<Rightarrow> Inl ErrInvalidOperation
           | Inr a \<Rightarrow> Inr \<lparr>amount = a, currency = currency m\<rparr>)"

definition Money_AddPercent :: "Money \<Rightarrow> int64 \<Rightarrow> money_error + Money" where
  "Money_AddPercent m percent =
     (case AddPercent (amount m) percent (Scale (currency m)) of
        Inl _ \<Rightarrow> Inl ErrInvalidOperation
      | Inr a \<Rightarrow> Inr \<lparr>amount = a, currency = currency m\<rparr>)"

definition Money_SubtractPercent :: "Money \<Rightarrow> int64 \<Rightarrow> money_error + Money" where
  "Money_SubtractPercent m percent =
     (case SubtractPercent (amount m) percent (Scale (currency m)) of
        Inl _ \<Rightarrow> Inl ErrInvalidOperation
      | Inr a \<Rightarrow> Inr \<lparr>amount = a, currency = currency m\<rparr>)"

definition Equal :: "Money \<Rightarrow> Money \<Rightarrow> bool" where
  "Equal m x =
     (if \<not> sameCurrency (currency m) (currency x) then False
      else case Compare (amount m) (amount x) (Scale (currency m)) of
             Inl _ \<Rightarrow> False
           | Inr cmp \<Rightarrow> cmp = 0)"

definition GreaterThan :: "Money \<Rightarrow> Money \<Rightarrow> money_error + bool" where
  "GreaterThan m x =
     (if \<not> sameCurrency (currency m) (currency x) then Inl ErrCurrencyMismatch
      else case Compare (amount m) (amount x) (Scale (currency m)) of
             Inl _ \<Rightarrow> Inl ErrInvalidOperation
           | Inr cmp \<Rightarrow> Inr (cmp > 0))"

definition LessThan :: "Money \<Rightarrow> Money \<Rightarrow> money_error + bool" where
  "LessThan m x =
     (if \<not> sameCurrency (currency m) (currency x) then Inl ErrCurrencyMismatch
      else case Compare (amount m) (amount x) (Scale (currency m)) of
             Inl _ \<Rightarrow> Inl ErrInvalidOperation
           | Inr cmp \<Rightarrow> Inr (cmp < 0))"


section \<open>Package money: rendering\<close>

text \<open>Modelled from the spec: \<open>strconv.FormatInt(i, 10)\<close> and
  \<open>strconv.FormatUint(u, 10)\<close> of Go's standard library, which is not under src/:
  the decimal digits, most significant first, after a minus sign for a negative
  \<open>int64\<close>.\<close>

definition digitChar :: "nat \<Rightarrow> char" where
  "digitChar n = ''0123456789'' ! n"

fun natDigits :: "nat \<Rightarrow> string" where
  "natDigits n = (if n < 10 then [digitChar n] else natDigits (n div 10) @ [digitChar (n mod 10)])"

declare natDigits.simps [simp del]

definition FormatUint :: "uint64 \<Rightarrow> string" where
  "FormatUint u = natDigits (unat u)"

definition FormatInt :: "int64 \<Rightarrow> string" where
  "FormatInt i = (if sint i < 0 then ''-'' @ natDigits (nat (- sint i)) else natDigits (nat (sint i)))"

definition signPrefix :: "int64 \<Rightarrow> string" where
  "signPrefix a = (if sint a < 0 then ''-'' else '''')"

definition absInt64String :: "int64 \<Rightarrow> string" where
  "absInt64String a =
     (if sint a \<ge> 0 then FormatInt a
      else if a = MinInt64 then FormatUint (MaxInt64 + 1)
      else FormatInt (- a))"

text \<open>format.go. \<open>SymbolPosition\<close> and \<open>SymbolKind\<close> are \<open>int32\<close> types with named
  constants; any other \<open>int32\<close> is a value of the type too.\<close>

type_synonym SymbolPosition = int32
type_synonym SymbolKind = int32

definition SymbolPrefix :: SymbolPosition where "SymbolPrefix = 0"
definition SymbolSuffix :: SymbolPosition where "SymbolSuffix = 1"

definition SymbolUseCurrencySymbol :: SymbolKind where "SymbolUseCurrencySymbol = 0"
definition SymbolUseCurrencyCode :: SymbolKind where "SymbolUseCurrencyCode = 1"
definition SymbolUseCustom :: SymbolKind where "SymbolUseCustom = 2"

record FormatConfig =
  DecimalSeparator :: string
  ThousandsSeparator :: string
  SymbolPosition :: SymbolPosition
  SymbolKind :: SymbolKind
  CustomSymbol :: string
  Space :: bool

text \<open>Modelled from the spec: \<open>utf8.RuneCountInString\<close> of Go's standard library,
  which is not under src/. A byte below \<open>0x80\<close> is one character; a lead byte with
  the continuation bytes its encoding needs is one character of 2, 3 or 4 bytes;
  any other byte counts as one character by itself. \<open>runeWidth c cs\<close> is the
  number of bytes of the first character of \<open>c # cs\<close>.\<close>

definition contByte :: "nat \<Rightarrow> nat \<Rightarrow> char \<Rightarrow> bool" where
  "contByte lo hi c \<longleftrightarrow> lo \<le> (of_char c :: nat) \<and> (of_char c :: nat) \<le> hi"

definition leadInfo :: "nat \<Rightarrow> (nat \<times> nat \<times> nat) option" where
  "leadInfo b =
     (if 194 \<le> b \<and> b \<le> 223 then Some (2, 128, 191)
      else if b = 224 then Some (3, 160, 191)
      else if 225 \<le> b \<and> b \<le> 236 then Some (3, 128, 191)
      else if b = 237 then Some (3, 128, 159)
      else if 238 \<le> b \<and> b \<le> 239 then Some (3, 128, 191)
      else if b = 240 then Some (4, 144, 191)
      else if 241 \<le> b \<and> b \<le> 243 then Some (4, 128, 191)
      else if b = 244 then Some (4, 128, 143)
      else None)"

definition runeWidth :: "char \<Rightarrow> string \<Rightarrow> nat" where
  "runeWidth c cs =
     (if (of_char c :: nat) < 128 then 1
      else case leadInfo (of_char c) of
        None \<Rightarrow> 1
      | Some (sz, lo, hi) \<Rightarrow>
          if 1 + length cs < sz then 1
          else if \<not> contByte lo hi (cs ! 0) then 1
          else if sz = 2 then 2
          else if \<not> contByte 128 191 (cs ! 1) then 1
          else if sz = 3 then 3
          else if \<not> contByte 128 191 (cs ! 2) then 1
          else 4)"

function RuneCountInString :: "string \<Rightarrow> nat" where
  "RuneCountInString [] = 0"
| "RuneCountInString (c # cs) = Suc (RuneCountInString (drop (runeWidth c cs - 1) cs))"
  by pat_completeness auto
termination
  by (relation "measure length") auto

definition validateFormat :: "FormatConfig \<Rightarrow> money_error option" where
  "validateFormat cfg =
     (if DecimalSeparator cfg = '''' then Some ErrInvalidOperation
      else if RuneCountInString (DecimalSeparator cfg) \<noteq> 1 then Some ErrInvalidOperation
      else if ThousandsSeparator cfg \<noteq> '''' \<and> RuneCountInString (ThousandsSeparator cfg) \<noteq> 1
        then Some ErrInvalidOperation
      else if ThousandsSeparator cfg \<noteq> '''' \<and> ThousandsSeparator cfg = DecimalSeparator cfg
        then Some ErrInvalidOperation
      else if SymbolKind cfg = SymbolUseCustom \<and> CustomSymbol cfg = ''''
        then Some ErrInvalidOperation
      else if \<not> (SymbolPosition cfg = SymbolPrefix \<or> SymbolPosition cfg = SymbolSuffix)
        then Some ErrInvalidOperation
      else if \<not> (SymbolKind cfg = SymbolUseCurrencySymbol \<or> SymbolKind cfg = SymbolUseCurrencyCode
                  \<or> SymbolKind cfg = SymbolUseCustom)
        then Some ErrInvalidOperation
      else None)"

definition splitAmount :: "string \<Rightarrow> int32 \<Rightarrow> string \<times> string" where
  "splitAmount absDigits sc =
     (if sint sc \<le> 0 then (absDigits, '''')
      else
        let scaleInt = nat (sint sc);
            padded = (if length absDigits \<le> scaleInt
                      then replicate (scaleInt - length absDigits + 1) CHR ''0'' @ absDigits
                      else absDigits)
        in (take (length padded - scaleInt) padded, drop (length padded - scaleInt) padded))"

text \<open>\<open>groupThousands\<close>: \<open>group_loop\<close> is the loop \<open>for i := start; i < len(intPart);
  i += 3\<close>; the slice \<open>intPart[i:i+3]\<close> is \<open>take 3 (drop i intPart)\<close>, within bounds
  because the digits after \<open>start\<close> come in threes (lemma \<open>group_loop_in_bounds\<close>
  below).\<close>

function group_loop :: "string \<Rightarrow> string \<Rightarrow> nat \<Rightarrow> string \<Rightarrow> string" where
  "group_loop intPart sep i out =
     (if i < length intPart
      then group_loop intPart sep (i + 3) (out @ sep @ take 3 (drop i intPart))
      else out)"
  by pat_completeness auto
termination
  by (relation "measure (\<lambda>(intPart, sep, i, out). length intPart - i)") auto

declare group_loop.simps [simp del]

definition groupThousands :: "string \<Rightarrow> string \<Rightarrow> string" where
  "groupThousands intPart sep =
     (if length intPart \<le> 3 then intPart
      else
        let start = (if length intPart mod 3 = 0 then 3 else length intPart mod 3)
        in group_loop intPart sep start (take start intPart))"

definition formatSymbol :: "Currency \<Rightarrow> FormatConfig \<Rightarrow> money_error + string" where
  "formatSymbol cur cfg =
     (if SymbolKind cfg = SymbolUseCurrencySymbol then Inr (Symbol cur)
      else if SymbolKind cfg = SymbolUseCurrencyCode then Inr (Code cur)
      else if SymbolKind cfg = SymbolUseCustom then
        (if CustomSymbol cfg = '''' then Inl ErrInvalidOperation else Inr (CustomSymbol cfg))
      else Inl ErrInvalidOperation)"

text \<open>The digits of the amount as \<open>formatWithConfig\<close> builds them before it adds
  the sign and the symbol: the local variable \<open>amount\<close>.\<close>

definition amountText :: "Money \<Rightarrow> FormatConfig \<Rightarrow> string" where
  "amountText m cfg =
     (let absDigits = absInt64String (amount m);
          (intPart, fracPart) = splitAmount absDigits (Scale (currency m));
          intPart = (if ThousandsSeparator cfg \<noteq> ''''
                     then groupThousands intPart (ThousandsSeparator cfg) else intPart)
      in if fracPart \<noteq> '''' then intPart @ DecimalSeparator cfg @ fracPart else intPart)"

definition formatWithConfig :: "Money \<Rightarrow> FormatConfig \<Rightarrow> money_error + string" where
  "formatWithConfig m cfg =
     (let amt = amountText m cfg in
      case formatSymbol (currency m) cfg of
        Inl err \<Rightarrow> Inl err
      | Inr symbol \<Rightarrow>
          let sep = (if Space cfg then '' '' else '''');
              sep = (if symbol = '''' then '''' else sep)
          in if SymbolPosition cfg = SymbolSuffix
             then Inr (signPrefix (amount m) @ amt @ sep @ symbol)
             else Inr (signPrefix (amount m) @ symbol @ sep @ amt))"

definition Format :: "Money \<Rightarrow> FormatConfig \<Rightarrow> money_error + string" where
  "Format m cfg =
     (case validateFormat cfg of
        Some err \<Rightarrow> Inl err
      | None \<Rightarrow> formatWithConfig m cfg)"

section \<open>The format configuration store\<close>

text \<open>The package variable \<open>formatConfig\<close> is the only state; it is passed
  explicitly. \<open>init\<close> stores \<open>initFormat\<close>; \<open>SetFormat\<close> returns the error (or
  \<open>None\<close> for \<open>nil\<close>) and the new state.\<close>

definition initFormat :: FormatConfig where
  "initFormat =
     \<lparr>DecimalSeparator = ''.'', ThousandsSeparator = '''',
      SymbolPosition = SymbolPrefix, SymbolKind = SymbolUseCurrencySymbol,
      CustomSymbol = '''', Space = False\<rparr>"

definition SetFormat :: "FormatConfig \<Rightarrow> FormatConfig \<Rightarrow> money_error option \<times> FormatConfig" where
  "SetFormat cfg st =
     (case validateFormat cfg of
        Some err \<Rightarrow> (Some err, st)
      | None \<Rightarrow> (None, cfg))"

definition DefaultFormat :: "FormatConfig \<Rightarrow> FormatConfig" where
  "DefaultFormat st = st"

definition Money_String :: "FormatConfig \<Rightarrow> Money \<Rightarrow> string" where
  "Money_String st m =
     (case formatWithConfig m (DefaultFormat st) of
        Inl _ \<Rightarrow> ''''
      | Inr text \<Rightarrow> text)"

text \<open>A run of the store: the state after a sequence of \<open>SetFormat\<close> calls.\<close>

fun runSetFormat :: "FormatConfig list \<Rightarrow> FormatConfig \<Rightarrow> FormatConfig" where
  "runSetFormat [] st = st"
| "runSetFormat (cfg # cfgs) st = runSetFormat cfgs (snd (SetFormat cfg st))"

section \<open>Vocabulary of the properties\<close>

text \<open>An exact result is representable when it lies in the signed 64-bit range.\<close>

definition inRange64 :: "int \<Rightarrow> bool" where
  "inRange64 i \<longleftrightarrow> - 9223372036854775808 \<le> i \<and> i \<le> 9223372036854775807"

text \<open>The validation rules as the specification lists them: a configuration
  violates a rule when its decimal separator is empty or has several characters,
  its thousands separator has several characters or equals the decimal separator,
  its symbol kind is custom with an empty custom symbol, or its position or kind
  is not a recognised value.\<close>

definition violatesRule :: "FormatConfig \<Rightarrow> bool" where
  "violatesRule cfg \<longleftrightarrow>
     DecimalSeparator cfg = '''' \<or>
     1 < RuneCountInString (DecimalSeparator cfg) \<or>
     1 < RuneCountInString (ThousandsSeparator cfg) \<or>
     ThousandsSeparator cfg = DecimalSeparator cfg \<or>
     (SymbolKind cfg = SymbolUseCustom \<and> CustomSymbol cfg = '''') \<or>
     SymbolPosition cfg \<notin> {SymbolPrefix, SymbolSuffix} \<or>
     SymbolKind cfg \<notin> {SymbolUseCurrencySymbol, SymbolUseCurrencyCode, SymbolUseCustom}"

text \<open>The symbol a configuration selects for a currency, and the space between the
  symbol and the amount: present only when the symbol is not empty and the
  configuration asks for it.\<close>

definition symbolText :: "Currency \<Rightarrow> FormatConfig \<Rightarrow> string" where
  "symbolText cur cfg =
     (if SymbolKind cfg = SymbolUseCurrencySymbol then Symbol cur
      else if SymbolKind cfg = SymbolUseCurrencyCode then Code cur
      else CustomSymbol cfg)"

definition spaceText :: "Currency \<Rightarrow> FormatConfig \<Rightarrow> string" where
  "spaceText cur cfg = (if symbolText cur cfg \<noteq> '''' \<and> Space cfg then '' '' else '''')"

text \<open>The currencies of the tests. The symbols of the Turkish lira and of the
  euro are the three bytes of their UTF-8 encodings.\<close>

definition lira :: string where
  "lira = [CHR 0xE2, CHR 0x82, CHR 0xBA]"

definition euro :: string where
  "euro = [CHR 0xE2, CHR 0x82, CHR 0xAC]"

definition USD :: Currency where
  "USD = \<lparr>Code = ''USD'', Scale = 2, Symbol = ''$''\<rparr>"

definition EUR :: Currency where
  "EUR = \<lparr>Code = ''EUR'', Scale = 2, Symbol = euro\<rparr>"

definition TRY :: Currency where
  "TRY = \<lparr>Code = ''TRY'', Scale = 2, Symbol = lira\<rparr>"

section \<open>Properties\<close>

section \<open>Signed 64-bit arithmetic\<close>

lemma sint_wi64: "inRange64 i \<Longrightarrow> sint (word_of_int i :: 64 word) = i"
  by (simp add: inRange64_def sint_sbintrunc' signed_take_bit_int_eq_self)

lemma sint_inRange64: "inRange64 (sint (x :: 64 word))"
  using sint_ge[of x] sint_lt[of x] by (simp add: inRange64_def)

lemma unat_wi64: "0 \<le> i \<Longrightarrow> i < 18446744073709551616 \<Longrightarrow> unat (word_of_int i :: 64 word) = nat i"
  by (simp add: unat_eq_nat_uint uint_word_of_int take_bit_int_eq_self)

lemma sint_MaxInt64: "sint MaxInt64 = 9223372036854775807"
  by (simp add: MaxInt64_def)

lemma sint_MinInt64: "sint MinInt64 = - 9223372036854775808"
  by (simp add: MinInt64_def)

lemma sint_add64: "inRange64 (sint a + sint b) \<Longrightarrow> sint (a + b :: 64 word) = sint a + sint b"
  by (simp add: sint_word_add signed_take_bit_int_eq_self inRange64_def)

lemma sint_sub64: "inRange64 (sint a - sint b) \<Longrightarrow> sint (a - b :: 64 word) = sint a - sint b"
  by (simp add: sint_word_diff signed_take_bit_int_eq_self inRange64_def)

lemma sint_mult64: "inRange64 (sint a * sint b) \<Longrightarrow> sint (a * b :: 64 word) = sint a * sint b"
  by (simp add: sint_word_mult signed_take_bit_int_eq_self inRange64_def)

lemma sint_neg64: "inRange64 (- sint a) \<Longrightarrow> sint (- a :: 64 word) = - sint a"
  by (simp add: sint_word_minus signed_take_bit_int_eq_self inRange64_def)

lemma addInt64_spec:
  "addInt64 a b = (if inRange64 (sint a + sint b) then (a + b, True) else (0, False))"
proof -
  have 1: "sint (MaxInt64 - b) = 9223372036854775807 - sint b" if "sint b > 0"
    using that sint_lt[of b] by (subst sint_sub64) (simp_all add: sint_MaxInt64 inRange64_def)
  have 2: "sint (MinInt64 - b) = - 9223372036854775808 - sint b" if "sint b < 0"
    using that sint_ge[of b] by (subst sint_sub64) (simp_all add: sint_MinInt64 inRange64_def)
  show ?thesis
    using sint_ge[of a] sint_lt[of a] sint_ge[of b] sint_lt[of b]
    by (auto simp: addInt64_def 1 2 inRange64_def)
qed

lemma unat_absInt64: "unat (absInt64 x) = nat \<bar>sint x\<bar>"
proof (cases "sint x \<ge> 0")
  case True
  have "unat (word_of_int (sint x) :: 64 word) = nat (sint x)"
    using True sint_lt[of x] by (intro unat_wi64) simp_all
  then show ?thesis using True by (simp add: absInt64_def)
next
  case neg: False
  show ?thesis
  proof (cases "x = MinInt64")
    case True
    then show ?thesis by (simp add: absInt64_def MinInt64_def MaxInt64_def)
  next
    case False
    have "unat (word_of_int (- sint x) :: 64 word) = nat (- sint x)"
      using neg sint_ge[of x] by (intro unat_wi64) simp_all
    then show ?thesis using neg False by (simp add: absInt64_def)
  qed
qed

lemma mulInt64_general:
  assumes "a \<noteq> 0" "b \<noteq> 0"
    and "\<not> (a = MinInt64 \<and> (b = 1 \<or> b = - 1))" "\<not> (b = MinInt64 \<and> (a = 1 \<or> a = - 1))"
  shows "mulInt64 a b =
           (if \<bar>sint a * sint b\<bar> \<le> 9223372036854775807 then (a * b, True) else (0, False))"
proof -
  let ?A = "absInt64 a" and ?B = "absInt64 b"
  have uA: "unat ?A = nat \<bar>sint a\<bar>" and uB: "unat ?B = nat \<bar>sint b\<bar>"
    by (rule unat_absInt64)+
  have Bpos: "0 < unat ?B"
    using assms(2) by (simp add: uB signed_eq_0_iff)
  have cmp: "MaxInt64 div ?B < ?A \<longleftrightarrow> 9223372036854775807 < unat ?A * unat ?B"
  proof -
    have "MaxInt64 div ?B < ?A \<longleftrightarrow> unat MaxInt64 div unat ?B < unat ?A"
      by (simp add: word_less_nat_alt unat_div)
    also have "\<dots> \<longleftrightarrow> unat MaxInt64 < unat ?A * unat ?B"
      using Bpos by (simp add: div_less_iff_less_mult)
    finally show ?thesis by (simp add: MaxInt64_def)
  qed
  have abs_eq: "int (unat ?A * unat ?B) = \<bar>sint a * sint b\<bar>"
    by (simp add: uA uB abs_mult)
  have prod_eq: "(if (sint a < 0) \<noteq> (sint b < 0) then - (?A * ?B) else ?A * ?B) = a * b"
  proof -
    have A: "?A = (if sint a < 0 then - a else a)"
      by (auto simp: absInt64_def MinInt64_def MaxInt64_def)
    have B: "?B = (if sint b < 0 then - b else b)"
      by (auto simp: absInt64_def MinInt64_def MaxInt64_def)
    show ?thesis by (simp add: A B)
  qed
  show ?thesis
  proof (cases "\<bar>sint a * sint b\<bar> \<le> 9223372036854775807")
    case True
    then have "\<not> 9223372036854775807 < unat ?A * unat ?B"
      using abs_eq by linarith
    then show ?thesis
      using assms True prod_eq by (simp add: mulInt64_def cmp Let_def)
  next
    case False
    then have "9223372036854775807 < unat ?A * unat ?B"
      using abs_eq by linarith
    then show ?thesis
      using assms False by (auto simp add: mulInt64_def cmp Let_def)
  qed
qed

lemma MaxInt64_div_less: "MaxInt64 div y < (9223372036854775808 :: 64 word)"
proof -
  have "unat (MaxInt64 div y) \<le> unat MaxInt64"
    by (simp add: unat_div)
  also have "\<dots> < unat (9223372036854775808 :: 64 word)"
    by (simp add: MaxInt64_def)
  finally show ?thesis
    by (simp add: word_less_nat_alt)
qed

lemma absInt64_MinInt64: "absInt64 MinInt64 = 9223372036854775808"
  by (simp add: absInt64_def MinInt64_def MaxInt64_def)

lemma mulInt64_MinInt64_other:
  assumes "b \<noteq> 0" "b \<noteq> 1"
  shows "mulInt64 MinInt64 b = (0, False)"
  using assms MaxInt64_div_less[of "absInt64 b"]
  apply (simp add: mulInt64_def absInt64_MinInt64 Let_def)
  apply (simp add: MinInt64_def)
  done

text \<open>
  Claim C5, as amended. \<open>mulInt64\<close> of the minimum \<open>int64\<close> and 1 succeeds with the
  minimum; with \<open>-1\<close>, and with every other factor except 0, it reports an
  overflow; \<open>absInt64\<close> of the minimum is \<open>2^63\<close>.
\<close>

theorem C5_min_int64:
  "mulInt64 MinInt64 1 = (MinInt64, True) \<and>
   mulInt64 MinInt64 (- 1) = (0, False) \<and>
   (\<forall>b. b \<noteq> 0 \<and> b \<noteq> 1 \<longrightarrow> mulInt64 MinInt64 b = (0, False)) \<and>
   unat (absInt64 MinInt64) = 2 ^ 63"
proof (intro conjI allI impI)
  show "mulInt64 MinInt64 1 = (MinInt64, True)"
    by (simp add: mulInt64_def MinInt64_def)
  show "mulInt64 MinInt64 (- 1) = (0, False)"
    by (rule mulInt64_MinInt64_other) simp_all
  show "mulInt64 MinInt64 b = (0, False)" if "b \<noteq> 0 \<and> b \<noteq> 1" for b
    using that by (simp add: mulInt64_MinInt64_other)
  show "unat (absInt64 MinInt64) = 2 ^ 63"
    by (simp add: absInt64_MinInt64)
qed

text \<open>Witness of C5: the factor 2.\<close>

theorem C5_witness:
  "(2::int64) \<noteq> 0 \<and> (2::int64) \<noteq> 1 \<and> mulInt64 MinInt64 2 = (0, False)"
  using C5_min_int64 by simp

text \<open>
  Counterexample to C5 as stated: the factor 0 is a factor other than 1, and the
  product with it is not reported as an overflow; the first test of \<open>mulInt64\<close>
  returns 0 with success.
\<close>

theorem C5_counterexample: "mulInt64 MinInt64 0 = (0, True)"
  by (simp add: mulInt64_def)

section \<open>Powers of ten and the recombination of whole and fraction\<close>

lemma pow10_le_18: "k \<le> 18 \<Longrightarrow> (10::int) ^ k \<le> 1000000000000000000"
  using power_increasing[of k 18 "10::int"] by simp

lemma sint_pow10: "k \<le> 18 \<Longrightarrow> sint (10 ^ k :: 64 word) = 10 ^ k"
proof -
  assume "k \<le> 18"
  moreover have "- 9223372036854775808 \<le> (10::int) ^ k"
    by (rule order_trans[of _ 0]) simp_all
  ultimately have "inRange64 (10 ^ k)"
    using pow10_le_18[of k] by (simp add: inRange64_def)
  then have "sint (word_of_int (10 ^ k) :: 64 word) = 10 ^ k"
    by (rule sint_wi64)
  then show ?thesis by simp
qed

lemma word64_of_sint_pow10: "sint (v :: 64 word) = 10 ^ k \<Longrightarrow> v = 10 ^ k"
proof -
  assume "sint v = 10 ^ k"
  then have "word_of_int (sint v) = (word_of_int (10 ^ k) :: 64 word)" by simp
  then show ?thesis by simp
qed

lemma pow10_loop_ok:
  "k + n \<le> 18 \<Longrightarrow> sint v = 10 ^ k \<Longrightarrow> pow10_loop n v = (10 ^ (k + n), True)"
proof (induction n arbitrary: k v)
  case 0
  then show ?case by (simp add: word64_of_sint_pow10)
next
  case (Suc n)
  have le17: "(10::int) ^ k \<le> 100000000000000000"
    using power_increasing[of k 17 "10::int"] Suc.prems(1) by simp
  have "v * 10 = 10 ^ Suc k"
    using word64_of_sint_pow10[OF Suc.prems(2)] by simp
  then have step: "sint (v * 10) = 10 ^ Suc k"
    using sint_pow10[of "Suc k"] Suc.prems(1) by simp
  have "pow10_loop (Suc n) v = pow10_loop n (v * 10)"
    using le17 Suc.prems(2) by (simp add: sint_MaxInt64)
  also have "\<dots> = (10 ^ (Suc k + n), True)"
    using Suc.prems(1) step by (intro Suc.IH) simp_all
  finally show ?case by simp
qed

lemma pow10_loop_fail:
  "k \<le> 18 \<Longrightarrow> 19 \<le> k + n \<Longrightarrow> sint v = 10 ^ k \<Longrightarrow> pow10_loop n v = (0, False)"
proof (induction n arbitrary: k v)
  case 0
  then show ?case by simp
next
  case (Suc n)
  show ?case
  proof (cases "k = 18")
    case True
    then show ?thesis using Suc.prems(3) by (simp add: sint_MaxInt64)
  next
    case False
    then have k17: "k \<le> 17" using Suc.prems(1) by simp
    have le17: "(10::int) ^ k \<le> 100000000000000000"
      using power_increasing[of k 17 "10::int"] k17 by simp
    have "v * 10 = 10 ^ Suc k"
      using word64_of_sint_pow10[OF Suc.prems(3)] by simp
    then have step: "sint (v * 10) = 10 ^ Suc k"
      using sint_pow10[of "Suc k"] k17 by simp
    have "pow10_loop (Suc n) v = pow10_loop n (v * 10)"
      using le17 Suc.prems(3) by (simp add: sint_MaxInt64)
    also have "\<dots> = (0, False)"
      using k17 Suc.prems(2) step by (intro Suc.IH[of "Suc k"]) simp_all
    finally show ?thesis .
  qed
qed

lemma pow10Int64_spec:
  "pow10Int64 sc =
     (if 0 \<le> sint sc \<and> sint sc \<le> 18 then (10 ^ nat (sint sc), True) else (0, False))"
proof (cases "sint sc < 0")
  case True
  then show ?thesis by (simp add: pow10Int64_def)
next
  case nonneg: False
  show ?thesis
  proof (cases "sint sc \<le> 18")
    case True
    then show ?thesis
      using nonneg pow10_loop_ok[of 0 "nat (sint sc)" 1] by (simp add: pow10Int64_def)
  next
    case False
    then show ?thesis
      using nonneg pow10_loop_fail[of 0 "nat (sint sc)" 1] by (simp add: pow10Int64_def)
  qed
qed

lemma combineInt64_spec:
  assumes "1 \<le> sint sc" "sint sc \<le> 18"
  shows "combineInt64 w f sc =
     (let v = sint w * 10 ^ nat (sint sc) in
      if \<bar>v\<bar> \<le> 9223372036854775807 \<and> inRange64 (v + sint f)
      then Inr (word_of_int (v + sint f)) else Inl errOverflow)"
proof -
  let ?n = "nat (sint sc)"
  let ?F = "10 ^ ?n :: 64 word"
  have n: "1 \<le> ?n" "?n \<le> 18" using assms by simp_all
  have sF: "sint ?F = 10 ^ ?n" using n by (simp add: sint_pow10)
  have F10: "(10::int) \<le> 10 ^ ?n"
    using power_increasing[of 1 ?n "10::int"] n by simp
  have "sint ?F \<noteq> sint (0::64 word)" "sint ?F \<noteq> sint (1::64 word)"
       "sint ?F \<noteq> sint (- 1::64 word)" "sint ?F \<noteq> sint MinInt64"
    using F10 unfolding sF sint_MinInt64 by simp_all
  then have Fne: "?F \<noteq> 0" "?F \<noteq> 1" "?F \<noteq> - 1" "?F \<noteq> MinInt64"
    by metis+
  have sc0: "sc \<noteq> 0" using assms(1) by auto
  have p: "pow10Int64 sc = (?F, True)"
    using assms by (simp add: pow10Int64_spec)
  have m: "mulInt64 w ?F =
      (if \<bar>sint w * 10 ^ ?n\<bar> \<le> 9223372036854775807 then (w * ?F, True) else (0, False))"
  proof (cases "w = 0")
    case True
    then show ?thesis by (simp add: mulInt64_def)
  next
    case False
    then show ?thesis using Fne by (subst mulInt64_general) (simp_all add: sF)
  qed
  show ?thesis
  proof (cases "\<bar>sint w * 10 ^ ?n\<bar> \<le> 9223372036854775807")
    case True
    then have sp: "sint (w * ?F) = sint w * 10 ^ ?n"
      by (subst sint_mult64) (auto simp: sF inRange64_def)
    have "word_of_int (sint (w * ?F) + sint f) = w * ?F + f"
      by simp
    then have "w * ?F + f = word_of_int (sint w * 10 ^ ?n + sint f)"
      unfolding sp by simp
    then show ?thesis
      using sc0 True assms(1)
      by (simp add: combineInt64_def p m addInt64_spec sp Let_def)
  next
    case False
    then show ?thesis
      using sc0 assms(1) by (simp add: combineInt64_def p m Let_def)
  qed
qed

lemma combineInt64_zero: "combineInt64 w f 0 = Inr w"
  by (simp add: combineInt64_def)

lemma combineInt64_bad_scale:
  "sint sc < 0 \<or> 19 \<le> sint sc \<Longrightarrow> combineInt64 w f sc = Inl errOverflow"
  by (auto simp: combineInt64_def pow10Int64_spec)

section \<open>Facts about the decimal engine\<close>

lemma prec_le_iff: "prec n \<le> k \<longleftrightarrow> n < 10 ^ k"
proof (induction k arbitrary: n)
  case 0
  show ?case by (subst prec.simps) simp
next
  case (Suc k)
  have "prec n \<le> Suc k \<longleftrightarrow> n = 0 \<or> prec (n div 10) \<le> k"
    by (subst prec.simps) simp
  also have "\<dots> \<longleftrightarrow> n = 0 \<or> n div 10 < 10 ^ k"
    by (simp add: Suc.IH)
  also have "\<dots> \<longleftrightarrow> n < 10 ^ Suc k"
    by (auto simp: div_less_iff_less_mult mult.commute)
  finally show ?case .
qed

lemma signedCoef_newUnsafe: "signedCoef (newUnsafe (c < 0) (nat \<bar>c\<bar>) s) = c"
  by (simp add: signedCoef_def newUnsafe_def)

lemma dscale_newUnsafe: "dscale (newUnsafe ng c s) = s"
  by (simp add: newUnsafe_def)

lemma coef_newUnsafe: "coef (newUnsafe ng c s) = c"
  by (simp add: newUnsafe_def)

lemma abs_signedCoef: "\<bar>signedCoef d\<bar> = int (coef d)"
  by (simp add: signedCoef_def)

lemma sint_word_of_nat64: "n \<le> 9223372036854775807 \<Longrightarrow> sint (word_of_nat n :: 64 word) = int n"
proof -
  assume "n \<le> 9223372036854775807"
  then have "inRange64 (int n)" by (simp add: inRange64_def)
  then have "sint (word_of_int (int n) :: 64 word) = int n" by (rule sint_wi64)
  then show ?thesis by simp
qed

lemma sint_neg_word_of_nat64:
  "n \<le> 9223372036854775808 \<Longrightarrow> sint (- word_of_nat n :: 64 word) = - int n"
proof -
  assume "n \<le> 9223372036854775808"
  then have "inRange64 (- int n)" by (simp add: inRange64_def)
  then have "sint (word_of_int (- int n) :: 64 word) = - int n" by (rule sint_wi64)
  then show ?thesis by simp
qed

text \<open>What Int64 returns for a decimal that has no more fractional digits than asked.\<close>

lemma decimal_Int64_le_scale:
  assumes "0 \<le> sc" "sc \<le> 19" "dscale d \<le> nat sc"
  defines "q \<equiv> coef d div 10 ^ dscale d"
    and "r \<equiv> coef d mod 10 ^ dscale d * 10 ^ (nat sc - dscale d)"
  shows "decimal_Int64 d sc =
     (if r > maxFint then (0, 0, False)
      else if neg d then
        (if q > 9223372036854775808 \<or> r > 9223372036854775808 then (0, 0, False)
         else (- word_of_nat q, - word_of_nat r, True))
      else
        (if q > 9223372036854775807 \<or> r > 9223372036854775807 then (0, 0, False)
         else (word_of_nat q, word_of_nat r, True)))"
proof -
  have c1: "(sc < MinScale \<or> sc > MaxScale) = False"
    using assms(1,2) by (simp add: MinScale_def MaxScale_def)
  have c2: "(nat sc < dscale d) = False"
    using assms(3) by simp
  show ?thesis
    unfolding decimal_Int64_def q_def r_def Let_def c1 c2 by (simp only: if_False)
qed

lemma split_coef:
  fixes c :: nat
  assumes "ds \<le> m"
  shows "c * 10 ^ (m - ds) = (c div 10 ^ ds) * 10 ^ m + (c mod 10 ^ ds) * 10 ^ (m - ds)"
proof -
  have p: "(10::nat) ^ m = 10 ^ ds * 10 ^ (m - ds)"
    using assms by (simp flip: power_add)
  have "c * 10 ^ (m - ds) = (c div 10 ^ ds * 10 ^ ds + c mod 10 ^ ds) * 10 ^ (m - ds)"
    by (simp only: div_mult_mod_eq)
  also have "\<dots> = (c div 10 ^ ds) * (10 ^ ds * 10 ^ (m - ds)) + (c mod 10 ^ ds) * 10 ^ (m - ds)"
    by (simp only: distrib_right mult.assoc)
  finally show ?thesis by (simp only: p)
qed

lemma frac_less:
  fixes c :: nat
  assumes "ds \<le> m"
  shows "(c mod 10 ^ ds) * 10 ^ (m - ds) < 10 ^ m"
proof -
  have "(c mod 10 ^ ds) * 10 ^ (m - ds) < 10 ^ ds * 10 ^ (m - ds)"
    by (rule mult_strict_right_mono) simp_all
  also have "\<dots> = 10 ^ m"
    using assms by (simp flip: power_add)
  finally show ?thesis .
qed

lemma pow10_nat_le_18: "m \<le> 18 \<Longrightarrow> (10::nat) ^ m \<le> 1000000000000000000"
  using power_increasing[of m 18 "10::nat"] by simp

lemma not_2_63_multiple:
  fixes q :: nat
  assumes "1 \<le> m"
  shows "q * 10 ^ m \<noteq> 9223372036854775808"
proof
  assume eq: "q * 10 ^ m = 9223372036854775808"
  obtain k where "m = Suc k" using assms by (cases m) auto
  then have "(10::nat) dvd q * 10 ^ m" by simp
  with eq have "(10::nat) dvd 9223372036854775808" by simp
  then show False by presburger
qed

lemma decimal_Round_le_scale:
  "dscale d \<le> nat sc \<Longrightarrow> decimal_Round d sc = d"
  by (simp add: decimal_Round_def MinScale_def Let_def max_def)

section \<open>What rounding back to minor units returns\<close>

lemma roundToMinor_spec:
  assumes s: "0 \<le> sint sc" "sint sc \<le> 18" and ds: "dscale d \<le> nat (sint sc)"
  shows "roundToMinor d sc =
     (if inRange64 (alignedCoef d (nat (sint sc)))
      then Inr (word_of_int (alignedCoef d (nat (sint sc)))) else Inl errOverflow)"
proof -
  define m where "m = nat (sint sc)"
  define q where "q = coef d div 10 ^ dscale d"
  define r where "r = coef d mod 10 ^ dscale d * 10 ^ (m - dscale d)"
  define sg :: int where "sg = (if neg d then - 1 else 1)"
  define N where "N = q * 10 ^ m + r"
  define V where "V = alignedCoef d m"
  define ok where "ok \<longleftrightarrow> \<not> r > maxFint \<and>
     (if neg d then \<not> (q > 9223372036854775808 \<or> r > 9223372036854775808)
      else \<not> (q > 9223372036854775807 \<or> r > 9223372036854775807))"
  define w :: int64 where "w = (if neg d then - word_of_nat q else word_of_nat q)"
  define f :: int64 where "f = (if neg d then - word_of_nat r else word_of_nat r)"
  have m18: "m \<le> 18" and dsm: "dscale d \<le> m" and msc: "int m = sint sc"
    using s ds by (simp_all add: m_def)
  have N: "coef d * 10 ^ (m - dscale d) = N"
    unfolding N_def q_def r_def by (rule split_coef[OF dsm])
  have V: "V = sg * int N"
    unfolding V_def alignedCoef_def signedCoef_def sg_def N[symmetric] by simp
  have r18: "r < 1000000000000000000"
    using frac_less[OF dsm, of "coef d"] pow10_nat_le_18[OF m18] unfolding r_def by linarith
  have qN: "q \<le> N"
  proof -
    have "q * 1 \<le> q * 10 ^ m" by (rule mult_le_mono2) simp
    then show ?thesis unfolding N_def by linarith
  qed
  have range_iff: "inRange64 V \<longleftrightarrow> (if neg d then N \<le> 9223372036854775808 else N \<le> 9223372036854775807)"
    unfolding V sg_def inRange64_def by auto
  have rd: "decimal_Round d (sint sc) = d"
    using ds by (rule decimal_Round_le_scale)
  have i64: "decimal_Int64 d (sint sc) = (if ok then (w, f, True) else (0, 0, False))"
    using decimal_Int64_le_scale[OF s(1) _ ds] s(2)
    unfolding ok_def w_def f_def q_def r_def m_def by (simp split: if_splits)
  have rm: "roundToMinor d sc = (if ok then combineInt64 w f sc else Inl errOverflow)"
    by (simp add: roundToMinor_def rd i64 Let_def)
  have sw: "sint w = sg * int q" and sf: "sint f = sg * int r" if ok
    using that unfolding ok_def w_def f_def sg_def
    by (auto simp: sint_word_of_nat64 sint_neg_word_of_nat64 split: if_splits)
  have range_ok: "ok" if "inRange64 V"
    using that qN r18 unfolding range_iff ok_def maxFint_def by (auto split: if_splits)
  show ?thesis
  proof (cases "m = 0")
    case True
    then have sc0: "sc = 0" using msc by (simp add: signed_eq_0_iff)
    have d0: "dscale d = 0" using dsm True by simp
    have r0: "r = 0" and qc: "N = q" unfolding N_def r_def using True d0 by simp_all
    have okr: "ok \<longleftrightarrow> inRange64 V"
      unfolding range_iff ok_def qc r0 maxFint_def by auto
    have "w = word_of_int V" unfolding V qc w_def sg_def by simp
    then show ?thesis
      using rm okr unfolding sc0 combineInt64_zero V_def m_def by simp
  next
    case False
    then have m1: "1 \<le> m" by simp
    then have sc1: "1 \<le> sint sc" using msc by simp
    show ?thesis
    proof (cases "inRange64 V")
      case True
      then have ok by (rule range_ok)
      have Nb: "N \<le> 9223372036854775808"
        using True unfolding range_iff by (auto split: if_splits)
      have "q * 10 ^ m \<le> 9223372036854775808" using Nb unfolding N_def by simp
      with not_2_63_multiple[OF m1, of q] have qm: "q * 10 ^ m \<le> 9223372036854775807"
        by simp
      have v: "sint w * 10 ^ nat (sint sc) = sg * int (q * 10 ^ m)"
        using sw[OF \<open>ok\<close>] by (simp add: m_def)
      have "int (q * 10 ^ m) \<le> 9223372036854775807"
        using qm by linarith
      then have av: "\<bar>sint w * 10 ^ nat (sint sc)\<bar> \<le> 9223372036854775807"
        unfolding v by (simp add: sg_def abs_mult)
      have sum: "sint w * 10 ^ nat (sint sc) + sint f = V"
        unfolding v sf[OF \<open>ok\<close>] V N_def by (simp add: algebra_simps)
      show ?thesis
        using True \<open>ok\<close> av sum rm combineInt64_spec[OF sc1 s(2), of w f]
        unfolding V_def m_def by (simp add: Let_def)
    next
      case notin: False
      show ?thesis
      proof (cases ok)
        case True
        have v: "sint w * 10 ^ nat (sint sc) = sg * int (q * 10 ^ m)"
          using sw[OF True] by (simp add: m_def)
        have sum: "sint w * 10 ^ nat (sint sc) + sint f = V"
          unfolding v sf[OF True] V N_def by (simp add: algebra_simps)
        show ?thesis
          using notin True sum rm combineInt64_spec[OF sc1 s(2), of w f]
          unfolding V_def m_def by (simp add: Let_def)
      next
        case False
        then show ?thesis using notin rm unfolding V_def m_def by simp
      qed
    qed
  qed
qed

lemma roundToMinor_bad_scale:
  assumes "sint sc < 0 \<or> 19 \<le> sint sc"
  shows "roundToMinor d sc = Inl errOverflow"
proof -
  obtain w f b where r: "decimal_Int64 (decimal_Round d (sint sc)) (sint sc) = (w, f, b)"
    by (cases "decimal_Int64 (decimal_Round d (sint sc)) (sint sc)") auto
  show ?thesis
    using combineInt64_bad_scale[OF assms, of w f]
    by (cases b) (simp_all add: roundToMinor_def r Let_def)
qed

lemma rshHalfEven_1_bounds: "n div 10 \<le> rshHalfEven n 1" "rshHalfEven n 1 \<le> n div 10 + 1"
  by (simp_all add: rshHalfEven_def Let_def)

lemma newFromBint_small:
  assumes "n < 10 ^ 19" "s \<le> 19"
  shows "newFromBint ng n (int s) 0 = Inr (newUnsafe ng n s)"
proof -
  have p: "prec n \<le> 19" using assms(1) by (simp add: prec_le_iff)
  have fp: "fitPass n (int s) 0 = Inr (n, int s)"
    using p assms(2) by (simp add: fitPass_def Let_def MaxPrec_def MaxScale_def)
  show ?thesis
    using p assms by (simp add: newFromBint_def fp MaxPrec_def newSafe_def MinScale_def MaxScale_def maxFint_def)
qed

lemma newFromBint_big:
  assumes "10 ^ 19 \<le> n" "n \<le> 18446744073709551616"
  shows "newFromBint ng n 0 0 = Inl errDecimalOverflow"
    and "1 \<le> s \<Longrightarrow> s \<le> 19 \<Longrightarrow> newFromBint ng n (int s) 0 = Inr (newUnsafe ng (rshHalfEven n 1) (s - 1))"
proof -
  have "prec n \<le> 20" using assms(2) by (simp add: prec_le_iff)
  moreover have "\<not> prec n \<le> 19" using assms(1) by (simp add: prec_le_iff)
  ultimately have p: "prec n = 20" by simp
  show "newFromBint ng n 0 0 = Inl errDecimalOverflow"
    by (simp add: newFromBint_def fitPass_def p MaxPrec_def)
  assume s: "1 \<le> s" "s \<le> 19"
  let ?c = "rshHalfEven n 1"
  have "n div 10 \<le> 1844674407370955161" using assms(2) by simp
  then have c: "?c < 10 ^ 19" using rshHalfEven_1_bounds(2)[of n] by simp
  then have pc: "prec ?c \<le> 19" by (simp add: prec_le_iff)
  have fp: "fitPass n (int s) 0 = Inr (?c, int (s - 1))"
    using s by (simp add: fitPass_def Let_def p MaxPrec_def MaxScale_def of_nat_diff)
  have ns: "nat (int s - 1) = s - 1" by simp
  show "newFromBint ng n (int s) 0 = Inr (newUnsafe ng ?c (s - 1))"
    using pc c s
    by (simp add: newFromBint_def fp MaxPrec_def newSafe_def MinScale_def MaxScale_def maxFint_def ns
          of_nat_diff)
qed

lemma decimal_Add_same_scale:
  assumes "dscale d = s" "dscale e = s"
  shows "decimal_Add d e =
     newFromBint (signedCoef d + signedCoef e < 0) (nat \<bar>signedCoef d + signedCoef e\<bar>) (int s) 0"
  using assms by (simp add: decimal_Add_def alignedCoef_def Let_def)

lemma add_then_round:
  assumes sc: "0 \<le> sint sc" "sint sc \<le> 19"
    and d: "dscale d = nat (sint sc)" and e: "dscale e = nat (sint sc)"
    and bd: "coef d \<le> 9223372036854775808" and be: "coef e \<le> 9223372036854775808"
  defines "t \<equiv> signedCoef d + signedCoef e"
  defines "R \<equiv> (case decimal_Add d e of Inl err \<Rightarrow> Inl (errDecimal err) | Inr x \<Rightarrow> roundToMinor x sc)"
  shows "inRange64 t \<Longrightarrow> sint sc \<le> 18 \<Longrightarrow> R = Inr (word_of_int t)"
    and "\<not> inRange64 t \<or> sint sc = 19 \<Longrightarrow> isl R"
proof -
  define s where "s = nat (sint sc)"
  define n where "n = nat \<bar>t\<bar>"
  have s19: "s \<le> 19" using sc by (simp add: s_def)
  have tb: "\<bar>t\<bar> \<le> 18446744073709551616"
    using bd be abs_signedCoef[of d] abs_signedCoef[of e] unfolding t_def by linarith
  then have nb: "n \<le> 18446744073709551616" by (simp add: n_def)
  have add: "decimal_Add d e = newFromBint (t < 0) n (int s) 0"
    unfolding t_def n_def s_def using d e by (rule decimal_Add_same_scale)
  have both: "(inRange64 t \<longrightarrow> sint sc \<le> 18 \<longrightarrow> R = Inr (word_of_int t)) \<and>
              (\<not> inRange64 t \<or> sint sc = 19 \<longrightarrow> isl R)"
  proof (cases "n < 10 ^ 19")
    case True
    define x where "x = newUnsafe (t < 0) n s"
    have ax: "decimal_Add d e = Inr x"
      unfolding add x_def using True s19 by (rule newFromBint_small)
    have Rx: "R = roundToMinor x sc" by (simp add: R_def ax)
    have dx: "dscale x \<le> nat (sint sc)" by (simp add: x_def dscale_newUnsafe s_def)
    have vx: "alignedCoef x (nat (sint sc)) = t"
      unfolding x_def n_def alignedCoef_def signedCoef_newUnsafe dscale_newUnsafe s_def by simp
    show ?thesis
    proof (cases "sint sc \<le> 18")
      case True
      show ?thesis
        unfolding Rx roundToMinor_spec[OF sc(1) True dx] vx using True by simp
    next
      case False
      then have "roundToMinor x sc = Inl errOverflow"
        by (intro roundToMinor_bad_scale) simp
      then show ?thesis using False by (simp add: Rx)
    qed
  next
    case False
    then have big: "10 ^ 19 \<le> n" by simp
    then have notin: "\<not> inRange64 t" by (auto simp: n_def inRange64_def)
    show ?thesis
    proof (cases "s = 0")
      case True
      have "decimal_Add d e = Inl errDecimalOverflow"
        unfolding add True using newFromBint_big(1)[OF big nb] by simp
      then show ?thesis using notin by (simp add: R_def)
    next
      case s0: False
      then have s1: "1 \<le> s" by simp
      define c where "c = rshHalfEven n 1"
      define x where "x = newUnsafe (t < 0) c (s - 1)"
      have ax: "decimal_Add d e = Inr x"
        unfolding add x_def c_def by (rule newFromBint_big(2)[OF big nb s1 s19])
      have Rx: "R = roundToMinor x sc" by (simp add: R_def ax)
      have dx: "dscale x \<le> nat (sint sc)" by (simp add: x_def dscale_newUnsafe s_def)
      have "1000000000000000000 \<le> n div 10" using big by simp
      then have cb: "1000000000000000000 \<le> c"
        using rshHalfEven_1_bounds(1)[of n] unfolding c_def by linarith
      have "s - (s - 1) = 1" using s1 by simp
      then have "alignedCoef x (nat (sint sc)) = signedCoef x * 10"
        unfolding alignedCoef_def x_def dscale_newUnsafe s_def[symmetric] by simp
      moreover have "\<bar>signedCoef x\<bar> = int c"
        by (simp add: abs_signedCoef x_def coef_newUnsafe)
      ultimately have vx: "\<not> inRange64 (alignedCoef x (nat (sint sc)))"
        using cb by (auto simp: inRange64_def)
      show ?thesis
      proof (cases "sint sc \<le> 18")
        case True
        show ?thesis
          unfolding Rx roundToMinor_spec[OF sc(1) True dx] using vx notin by simp
      next
        case False
        then have "roundToMinor x sc = Inl errOverflow"
          by (intro roundToMinor_bad_scale) simp
        then show ?thesis using notin by (simp add: Rx)
      qed
    qed
  qed
  show "inRange64 t \<Longrightarrow> sint sc \<le> 18 \<Longrightarrow> R = Inr (word_of_int t)"
    using both by simp
  show "\<not> inRange64 t \<or> sint sc = 19 \<Longrightarrow> isl R"
    using both by simp
qed

section \<open>Addition, subtraction and comparison of minor units\<close>

lemma newAmount_ok:
  assumes "0 \<le> sint sc" "sint sc \<le> 19"
  shows "newAmount v sc = Inr \<lparr>dec = newUnsafe (sint v < 0) (nat \<bar>sint v\<bar>) (nat (sint sc))\<rparr>"
proof -
  have "\<bar>sint v\<bar> \<le> 9223372036854775808"
    using sint_ge[of v] sint_lt[of v] by simp
  then have "\<not> maxFint < nat \<bar>sint v\<bar>" by (simp add: maxFint_def)
  then show ?thesis
    using assms by (simp add: newAmount_def decimal_New_def newSafe_def MinScale_def MaxScale_def)
qed

lemma newAmount_bad:
  "sint sc < 0 \<or> 19 < sint sc \<Longrightarrow> newAmount v sc = Inl (errDecimal errScaleRange)"
  by (auto simp: newAmount_def decimal_New_def newSafe_def MinScale_def MaxScale_def)

lemma coef_amount_bound: "coef (newUnsafe (sint (v::int64) < 0) (nat \<bar>sint v\<bar>) s) \<le> 9223372036854775808"
  using sint_ge[of v] sint_lt[of v] by (simp add: coef_newUnsafe)

lemma Add_eq:
  assumes "0 \<le> sint sc" "sint sc \<le> 19"
  shows "Add a b sc =
    (case decimal_Add (newUnsafe (sint a < 0) (nat \<bar>sint a\<bar>) (nat (sint sc)))
                      (newUnsafe (sint b < 0) (nat \<bar>sint b\<bar>) (nat (sint sc))) of
       Inl err \<Rightarrow> Inl (errDecimal err) | Inr x \<Rightarrow> roundToMinor x sc)"
  by (simp add: Add_def newAmount_ok[OF assms] add_def Round_def split: sum.splits)

lemma Add_ok:
  assumes "0 \<le> sint sc" "sint sc \<le> 18" "inRange64 (sint a + sint b)"
  shows "Add a b sc = Inr (a + b)"
proof -
  have le19: "sint sc \<le> 19" using assms(2) by simp
  have "Add a b sc = Inr (word_of_int (sint a + sint b))"
    unfolding Add_eq[OF assms(1) le19]
    using add_then_round(1)[OF assms(1) le19 dscale_newUnsafe dscale_newUnsafe
        coef_amount_bound coef_amount_bound, of a b] assms(2,3)
    by (simp add: signedCoef_newUnsafe)
  then show ?thesis by simp
qed

lemma Add_fail:
  assumes "\<not> inRange64 (sint a + sint b) \<or> sint sc < 0 \<or> 19 \<le> sint sc"
  shows "isl (Add a b sc)"
proof (cases "0 \<le> sint sc \<and> sint sc \<le> 19")
  case True
  then have sc: "0 \<le> sint sc" "sint sc \<le> 19" by simp_all
  have c: "\<not> inRange64 (sint a + sint b) \<or> sint sc = 19"
    using assms sc by auto
  show ?thesis
    unfolding Add_eq[OF sc]
    using add_then_round(2)[OF sc dscale_newUnsafe dscale_newUnsafe
        coef_amount_bound coef_amount_bound, of a b] c
    by (simp add: signedCoef_newUnsafe)
next
  case False
  then have "sint sc < 0 \<or> 19 < sint sc" by auto
  then show ?thesis by (simp add: Add_def newAmount_bad)
qed

lemma decimal_Neg_facts:
  "signedCoef (decimal_Neg e) = - signedCoef e"
  "dscale (decimal_Neg e) = dscale e"
  "coef (decimal_Neg e) = coef e"
  by (simp_all add: decimal_Neg_def newUnsafe_def signedCoef_def)

lemma Sub_eq:
  assumes "0 \<le> sint sc" "sint sc \<le> 19"
  shows "Sub a b sc =
    (case decimal_Add (newUnsafe (sint a < 0) (nat \<bar>sint a\<bar>) (nat (sint sc)))
                      (decimal_Neg (newUnsafe (sint b < 0) (nat \<bar>sint b\<bar>) (nat (sint sc)))) of
       Inl err \<Rightarrow> Inl (errDecimal err) | Inr x \<Rightarrow> roundToMinor x sc)"
  by (simp add: Sub_def newAmount_ok[OF assms] sub_def decimal_Sub_def Round_def split: sum.splits)

lemma Sub_ok:
  assumes "0 \<le> sint sc" "sint sc \<le> 18" "inRange64 (sint a - sint b)"
  shows "Sub a b sc = Inr (a - b)"
proof -
  have le19: "sint sc \<le> 19" using assms(2) by simp
  let ?e = "decimal_Neg (newUnsafe (sint b < 0) (nat \<bar>sint b\<bar>) (nat (sint sc)))"
  have de: "dscale ?e = nat (sint sc)" by (simp add: decimal_Neg_facts dscale_newUnsafe)
  have ce: "coef ?e \<le> 9223372036854775808"
    unfolding decimal_Neg_facts by (rule coef_amount_bound)
  have "Sub a b sc = Inr (word_of_int (sint a - sint b))"
    unfolding Sub_eq[OF assms(1) le19]
    using add_then_round(1)[OF assms(1) le19 dscale_newUnsafe de coef_amount_bound ce, of a] assms(2,3)
    by (simp add: signedCoef_newUnsafe decimal_Neg_facts)
  then show ?thesis by simp
qed

lemma Sub_fail:
  assumes "\<not> inRange64 (sint a - sint b) \<or> sint sc < 0 \<or> 19 \<le> sint sc"
  shows "isl (Sub a b sc)"
proof (cases "0 \<le> sint sc \<and> sint sc \<le> 19")
  case True
  then have sc: "0 \<le> sint sc" "sint sc \<le> 19" by simp_all
  let ?e = "decimal_Neg (newUnsafe (sint b < 0) (nat \<bar>sint b\<bar>) (nat (sint sc)))"
  have de: "dscale ?e = nat (sint sc)" by (simp add: decimal_Neg_facts dscale_newUnsafe)
  have ce: "coef ?e \<le> 9223372036854775808"
    unfolding decimal_Neg_facts by (rule coef_amount_bound)
  have c: "\<not> inRange64 (sint a - sint b) \<or> sint sc = 19"
    using assms sc by auto
  show ?thesis
    unfolding Sub_eq[OF sc]
    using add_then_round(2)[OF sc dscale_newUnsafe de coef_amount_bound ce, of a] c
    by (simp add: signedCoef_newUnsafe decimal_Neg_facts)
next
  case False
  then have "sint sc < 0 \<or> 19 < sint sc" by auto
  then show ?thesis by (simp add: Sub_def newAmount_bad)
qed

lemma Compare_refl:
  "Compare a a sc = (if 0 \<le> sint sc \<and> sint sc \<le> 19 then Inr 0 else Inl (errDecimal errScaleRange))"
proof (cases "0 \<le> sint sc \<and> sint sc \<le> 19")
  case True
  then have sc: "0 \<le> sint sc" "sint sc \<le> 19" by simp_all
  show ?thesis using True by (simp add: Compare_def newAmount_ok[OF sc] decimal_Cmp_def Let_def)
next
  case False
  then have "sint sc < 0 \<or> 19 < sint sc" by auto
  then show ?thesis using False by (simp add: Compare_def newAmount_bad)
qed

section \<open>The Money operations\<close>

lemma sameCurrency_eq: "sameCurrency (a::Currency) b \<longleftrightarrow> a = b"
  by (cases a, cases b) (auto simp: sameCurrency_def)

lemma isl_Inl_case: "isl r \<Longrightarrow> (case r of Inl _ \<Rightarrow> Inl e | Inr a \<Rightarrow> Inr (f a)) = Inl e"
  by (cases r) simp_all

lemma not_sameCurrency_iff:
  "\<not> sameCurrency c1 c2 \<longleftrightarrow> Code c1 \<noteq> Code c2 \<or> Scale c1 \<noteq> Scale c2 \<or> Symbol c1 \<noteq> Symbol c2"
  by (auto simp: sameCurrency_def)

text \<open>
  Claim C3. For two Money values with equal amounts whose currencies differ in
  code, scale or symbol, \<open>Add\<close>, \<open>Sub\<close>, \<open>GreaterThan\<close> and \<open>LessThan\<close> fail with the
  currency-mismatch failure, which is not the invalid-operation failure, and
  \<open>Equal\<close> returns false.
\<close>

theorem C3_currency_strictness:
  assumes "amount m = amount x"
    and "Code (currency m) \<noteq> Code (currency x) \<or> Scale (currency m) \<noteq> Scale (currency x)
         \<or> Symbol (currency m) \<noteq> Symbol (currency x)"
  shows "Money_Add m x = Inl ErrCurrencyMismatch \<and>
         Money_Sub m x = Inl ErrCurrencyMismatch \<and>
         GreaterThan m x = Inl ErrCurrencyMismatch \<and>
         LessThan m x = Inl ErrCurrencyMismatch \<and>
         ErrCurrencyMismatch \<noteq> ErrInvalidOperation \<and>
         Equal m x = False"
proof -
  from assms(2) have "\<not> sameCurrency (currency m) (currency x)"
    by (simp add: not_sameCurrency_iff)
  then show ?thesis
    by (simp add: Money_Add_def Money_Sub_def GreaterThan_def LessThan_def Equal_def)
qed

text \<open>Witness of C3: 100 US dollars against 100 euros, as in the tests.\<close>

theorem C3_witness:
  "Money_Add (New 100 USD) (New 100 EUR) = Inl ErrCurrencyMismatch \<and>
   Money_Sub (New 100 USD) (New 100 EUR) = Inl ErrCurrencyMismatch \<and>
   GreaterThan (New 100 USD) (New 100 EUR) = Inl ErrCurrencyMismatch \<and>
   LessThan (New 100 USD) (New 100 EUR) = Inl ErrCurrencyMismatch \<and>
   Equal (New 100 USD) (New 100 EUR) = False"
  using C3_currency_strictness[of "New 100 USD" "New 100 EUR"]
  by (simp add: New_def USD_def EUR_def)

lemma Money_Add_fail:
  assumes "sameCurrency (currency m) (currency x)"
    and "\<not> inRange64 (sint (amount m) + sint (amount x))
         \<or> sint (Scale (currency m)) < 0 \<or> 19 \<le> sint (Scale (currency m))"
  shows "Money_Add m x = Inl ErrInvalidOperation"
  using assms(1) Add_fail[OF assms(2)] by (simp add: Money_Add_def isl_Inl_case)

lemma Money_Sub_fail:
  assumes "sameCurrency (currency m) (currency x)"
    and "\<not> inRange64 (sint (amount m) - sint (amount x))
         \<or> sint (Scale (currency m)) < 0 \<or> 19 \<le> sint (Scale (currency m))"
  shows "Money_Sub m x = Inl ErrInvalidOperation"
  using assms(1) Sub_fail[OF assms(2)] by (simp add: Money_Sub_def isl_Inl_case)

lemma Money_Add_ok:
  assumes "sameCurrency (currency m) (currency x)"
    and "0 \<le> sint (Scale (currency m))" "sint (Scale (currency m)) \<le> 18"
    and "inRange64 (sint (amount m) + sint (amount x))"
  shows "Money_Add m x = Inr \<lparr>amount = amount m + amount x, currency = currency m\<rparr>"
  using assms(1) by (simp add: Money_Add_def Add_ok[OF assms(2-4)])

lemma Money_Sub_ok:
  assumes "sameCurrency (currency m) (currency x)"
    and "0 \<le> sint (Scale (currency m))" "sint (Scale (currency m)) \<le> 18"
    and "inRange64 (sint (amount m) - sint (amount x))"
  shows "Money_Sub m x = Inr \<lparr>amount = amount m - amount x, currency = currency m\<rparr>"
  using assms(1) by (simp add: Money_Sub_def Sub_ok[OF assms(2-4)])

text \<open>
  Claim C2, as amended. For every pair of Money values of the same currency, an
  addition or subtraction whose exact result lies outside the signed 64-bit range
  fails with the invalid-operation failure, whatever the scale. When the scale of
  the currency lies between 0 and 18, adding or subtracting a zero amount at the
  maximum or the minimum representable amount succeeds and returns that amount
  unchanged.
\<close>

theorem C2_overflow_boundary:
  assumes "sameCurrency (currency m) (currency x)"
  shows "(\<not> inRange64 (sint (amount m) + sint (amount x)) \<longrightarrow> Money_Add m x = Inl ErrInvalidOperation) \<and>
         (\<not> inRange64 (sint (amount m) - sint (amount x)) \<longrightarrow> Money_Sub m x = Inl ErrInvalidOperation) \<and>
         (0 \<le> sint (Scale (currency m)) \<and> sint (Scale (currency m)) \<le> 18 \<and>
          (amount m = MaxInt64 \<or> amount m = MinInt64) \<and> amount x = 0 \<longrightarrow>
            Money_Add m x = Inr m \<and> Money_Add x m = Inr m \<and> Money_Sub m x = Inr m)"
proof (intro conjI impI)
  assume "\<not> inRange64 (sint (amount m) + sint (amount x))"
  then show "Money_Add m x = Inl ErrInvalidOperation"
    using assms by (simp add: Money_Add_fail)
next
  assume "\<not> inRange64 (sint (amount m) - sint (amount x))"
  then show "Money_Sub m x = Inl ErrInvalidOperation"
    using assms by (simp add: Money_Sub_fail)
next
  assume b: "0 \<le> sint (Scale (currency m)) \<and> sint (Scale (currency m)) \<le> 18 \<and>
          (amount m = MaxInt64 \<or> amount m = MinInt64) \<and> amount x = 0"
  have cur: "currency x = currency m" using assms by (simp add: sameCurrency_eq)
  have r: "inRange64 (sint (amount m) + sint (amount x))" "inRange64 (sint (amount x) + sint (amount m))"
      "inRange64 (sint (amount m) - sint (amount x))"
    using b sint_inRange64[of "amount m"] by simp_all
  show "Money_Add m x = Inr m"
    using Money_Add_ok[OF assms _ _ r(1)] b by simp
  show "Money_Add x m = Inr m"
    using Money_Add_ok[of x m, OF _ _ _ r(2)] b by (simp add: cur sameCurrency_eq)
  show "Money_Sub m x = Inr m"
    using Money_Sub_ok[OF assms _ _ r(3)] b by simp
qed

text \<open>Witness of C2 in US dollars: overflow past both ends of the range, and the
  two boundaries with a zero operand.\<close>

theorem C2_witness:
  "Money_Add (New MaxInt64 USD) (New 1 USD) = Inl ErrInvalidOperation \<and>
   Money_Sub (New MinInt64 USD) (New 1 USD) = Inl ErrInvalidOperation \<and>
   Money_Add (New MaxInt64 USD) (Zero USD) = Inr (New MaxInt64 USD) \<and>
   Money_Add (Zero USD) (New MinInt64 USD) = Inr (New MinInt64 USD) \<and>
   Money_Sub (New MinInt64 USD) (Zero USD) = Inr (New MinInt64 USD)"
  using C2_overflow_boundary[of "New MaxInt64 USD" "New 1 USD"]
    C2_overflow_boundary[of "New MinInt64 USD" "New 1 USD"]
    C2_overflow_boundary[of "New MaxInt64 USD" "Zero USD"]
    C2_overflow_boundary[of "New MinInt64 USD" "Zero USD"]
  by (simp add: New_def Zero_def USD_def sameCurrency_def inRange64_def MaxInt64_def MinInt64_def)

text \<open>
  Counterexample to C2 as stated: in a currency of scale 19 the maximum amount plus
  zero fails, because \<open>pow10Int64(19)\<close> does not fit \<open>int64\<close> and \<open>combineInt64\<close>
  reports an overflow.
\<close>

theorem C2_counterexample:
  "Money_Add \<lparr>amount = MaxInt64, currency = \<lparr>Code = ''USD'', Scale = 19, Symbol = ''$''\<rparr>\<rparr>
             \<lparr>amount = 0, currency = \<lparr>Code = ''USD'', Scale = 19, Symbol = ''$''\<rparr>\<rparr>
   = Inl ErrInvalidOperation"
  by (rule Money_Add_fail) (simp_all add: sameCurrency_def)

text \<open>
  Claim C9, as amended. For all Money values \<open>a\<close> and \<open>b\<close> of the same currency
  whose scale lies between 0 and 18 and whose sum is representable, \<open>a.Add(b)\<close>
  succeeds and subtracting \<open>b\<close> from the sum returns \<open>a\<close> itself, the same amount
  and the same currency, which \<open>Equal\<close> confirms.
\<close>

theorem C9_add_sub_inverse:
  assumes "sameCurrency (currency a) (currency b)"
    and "0 \<le> sint (Scale (currency a))" "sint (Scale (currency a)) \<le> 18"
    and "inRange64 (sint (amount a) + sint (amount b))"
  shows "\<exists>s. Money_Add a b = Inr s \<and> Money_Sub s b = Inr a \<and> Equal a a"
proof -
  let ?s = "\<lparr>amount = amount a + amount b, currency = currency a\<rparr>"
  have add: "Money_Add a b = Inr ?s"
    using assms by (rule Money_Add_ok)
  have sum: "sint (amount a + amount b) = sint (amount a) + sint (amount b)"
    using assms(4) by (rule sint_add64)
  have "inRange64 (sint (amount ?s) - sint (amount b))"
    using sint_inRange64[of "amount a"] by (simp add: sum)
  then have "Money_Sub ?s b = Inr \<lparr>amount = amount ?s - amount b, currency = currency ?s\<rparr>"
    using assms(1-3) by (intro Money_Sub_ok) simp_all
  then have sub: "Money_Sub ?s b = Inr a" by simp
  have "Equal a a"
    using assms(2,3) by (simp add: Equal_def sameCurrency_def Compare_refl)
  with add sub show ?thesis by blast
qed

text \<open>Witness of C9: 10.50 and 2.50 US dollars, as in the tests.\<close>

theorem C9_witness:
  "\<exists>s. Money_Add (New 1050 USD) (New 250 USD) = Inr s \<and> Money_Sub s (New 250 USD) = Inr (New 1050 USD)
       \<and> Equal (New 1050 USD) (New 1050 USD)"
  using C9_add_sub_inverse[of "New 1050 USD" "New 250 USD"]
  by (simp add: New_def USD_def sameCurrency_def inRange64_def)

text \<open>
  Counterexample to C9 as stated: in a currency of scale 19 the sum of two amounts
  of 1 is representable, yet \<open>Add\<close> fails, so there is nothing to subtract from.
\<close>

theorem C9_counterexample:
  "Money_Add \<lparr>amount = 1, currency = \<lparr>Code = ''USD'', Scale = 19, Symbol = ''$''\<rparr>\<rparr>
             \<lparr>amount = 1, currency = \<lparr>Code = ''USD'', Scale = 19, Symbol = ''$''\<rparr>\<rparr>
   = Inl ErrInvalidOperation"
  by (rule Money_Add_fail) (simp_all add: sameCurrency_def)

text \<open>
  Claim C10. \<open>m.Equal(m)\<close> holds exactly when the scale of the currency lies
  between 0 and the maximum scale of the decimal engine; for a negative or a larger
  scale the construction of the decimal fails and \<open>Equal\<close> returns false.
\<close>

theorem C10_equal_reflexive_iff:
  "Equal m m \<longleftrightarrow> 0 \<le> sint (Scale (currency m)) \<and> sint (Scale (currency m)) \<le> MaxScale"
  by (simp add: Equal_def sameCurrency_def Compare_refl MaxScale_def)

text \<open>Witness of C10: \<open>Equal\<close> is not reflexive at scale 20 and at scale \<open>-1\<close>, and
  is at scale 2.\<close>

theorem C10_witness:
  "\<not> Equal (New 5 \<lparr>Code = ''USD'', Scale = 20, Symbol = ''$''\<rparr>) (New 5 \<lparr>Code = ''USD'', Scale = 20, Symbol = ''$''\<rparr>) \<and>
   \<not> Equal (New 5 \<lparr>Code = ''USD'', Scale = - 1, Symbol = ''$''\<rparr>) (New 5 \<lparr>Code = ''USD'', Scale = - 1, Symbol = ''$''\<rparr>) \<and>
   Equal (New 5 USD) (New 5 USD)"
  using C10_equal_reflexive_iff[of "New 5 \<lparr>Code = ''USD'', Scale = 20, Symbol = ''$''\<rparr>"]
    C10_equal_reflexive_iff[of "New 5 \<lparr>Code = ''USD'', Scale = - 1, Symbol = ''$''\<rparr>"]
    C10_equal_reflexive_iff[of "New 5 USD"]
  by (simp add: New_def USD_def MaxScale_def)

section \<open>Division\<close>




section \<open>Evaluating the engine on concrete amounts\<close>


lemma prec_numeral: "prec (numeral k) = Suc (prec (numeral k div 10))"
  by (subst prec.simps) simp

lemma prec_0: "prec 0 = 0"
  by (subst prec.simps) simp

lemma prec_1: "prec (Suc 0) = 1"
  by (subst prec.simps) (simp add: prec_0)



lemmas decimal_eval = decimal_New_def newSafe_def newUnsafe_def MinScale_def MaxScale_def maxFint_def
  MaxPrec_def newFromBint_def fitPass_def rshHalfEven_def prec_numeral prec_0 prec_1 Let_def

lemma combineInt64_eval:
  "combineInt64 w f 2 =
     (if \<bar>sint w * 100\<bar> \<le> 9223372036854775807 \<and> inRange64 (sint w * 100 + sint f)
      then Inr (word_of_int (sint w * 100 + sint f)) else Inl errOverflow)"
  using combineInt64_spec[of 2 w f] by (simp add: Let_def)

lemma newAmount_19990: "newAmount 19990 2 = Inr \<lparr>dec = \<lparr>neg = False, coef = 19990, dscale = 2\<rparr>\<rparr>"
  by (simp add: newAmount_def decimal_eval)

lemma newAmount_17991: "newAmount 17991 2 = Inr \<lparr>dec = \<lparr>neg = False, coef = 17991, dscale = 2\<rparr>\<rparr>"
  by (simp add: newAmount_def decimal_eval)

lemma percentMultiplier_sub10: "percentMultiplier 10 False = Inr \<lparr>neg = False, coef = 90, dscale = 2\<rparr>"
  by (simp add: percentMultiplier_def decimal_eval)

lemma percentMultiplier_add18: "percentMultiplier 18 True = Inr \<lparr>neg = False, coef = 118, dscale = 2\<rparr>"
  by (simp add: percentMultiplier_def decimal_eval)

lemma multiply_19990: "multiply \<lparr>dec = \<lparr>neg = False, coef = 19990, dscale = 2\<rparr>\<rparr> \<lparr>neg = False, coef = 90, dscale = 2\<rparr>
   = Inr \<lparr>dec = \<lparr>neg = False, coef = 1799100, dscale = 4\<rparr>\<rparr>"
  by (simp add: multiply_def decimal_MulExact_def decimal_eval)

lemma multiply_17991: "multiply \<lparr>dec = \<lparr>neg = False, coef = 17991, dscale = 2\<rparr>\<rparr> \<lparr>neg = False, coef = 118, dscale = 2\<rparr>
   = Inr \<lparr>dec = \<lparr>neg = False, coef = 2122938, dscale = 4\<rparr>\<rparr>"
  by (simp add: multiply_def decimal_MulExact_def decimal_eval)

lemma Round_1799100: "Round \<lparr>neg = False, coef = 1799100, dscale = 4\<rparr> 2 = Inr 17991"
  by (simp add: Round_def roundToMinor_def decimal_Round_def decimal_Int64_def decimal_eval
        combineInt64_eval inRange64_def)

lemma Round_2122938: "Round \<lparr>neg = False, coef = 2122938, dscale = 4\<rparr> 2 = Inr 21229"
  by (simp add: Round_def roundToMinor_def decimal_Round_def decimal_Int64_def decimal_eval
        combineInt64_eval inRange64_def)

lemma SubtractPercent_example: "SubtractPercent 19990 10 2 = Inr 17991"
  by (simp add: SubtractPercent_def subtractPercent_def newAmount_19990 percentMultiplier_sub10
        multiply_19990 Round_1799100)

lemma AddPercent_example: "AddPercent 17991 18 2 = Inr 21229"
  by (simp add: AddPercent_def addPercent_def newAmount_17991 percentMultiplier_add18
        multiply_17991 Round_2122938)

lemma natDigits_numeral:
  "natDigits (numeral k) =
     (if numeral k < (10::nat) then [digitChar (numeral k)]
      else natDigits (numeral k div 10) @ [digitChar (numeral k mod 10)])"
  by (subst natDigits.simps) simp

lemma natDigits_0: "natDigits 0 = ''0''"
  by (subst natDigits.simps) (simp add: digitChar_def)

lemma natDigits_1: "natDigits 1 = ''1''"
  by (subst natDigits.simps) (simp add: digitChar_def)

lemma absInt64String_21229: "absInt64String 21229 = ''21229''"
  by (simp add: absInt64String_def FormatInt_def natDigits_numeral natDigits_0 natDigits_1 digitChar_def)

lemma String_21229: "Money_String initFormat \<lparr>amount = 21229, currency = \<lparr>Code = c, Scale = 2, Symbol = lira\<rparr>\<rparr> = lira @ ''212.29''"
  by (simp add: Money_String_def DefaultFormat_def formatWithConfig_def amountText_def absInt64String_21229
       splitAmount_def initFormat_def formatSymbol_def signPrefix_def SymbolPrefix_def SymbolSuffix_def
       SymbolUseCurrencySymbol_def lira_def)

text \<open>
  Claim C1. For the Money value 19990 at scale 2, \<open>SubtractPercent(10)\<close> returns
  17991; \<open>AddPercent(18)\<close> applied to that result returns 21229; and the default
  string conversion of the final value, under the initial format configuration and
  with the currency symbol of the lira, is that symbol followed by \<open>212.29\<close>. The
  currency code plays no part.
\<close>

theorem C1_percent_example:
  "Money_SubtractPercent \<lparr>amount = 19990, currency = \<lparr>Code = c, Scale = 2, Symbol = lira\<rparr>\<rparr> 10
     = Inr \<lparr>amount = 17991, currency = \<lparr>Code = c, Scale = 2, Symbol = lira\<rparr>\<rparr> \<and>
   Money_AddPercent \<lparr>amount = 17991, currency = \<lparr>Code = c, Scale = 2, Symbol = lira\<rparr>\<rparr> 18
     = Inr \<lparr>amount = 21229, currency = \<lparr>Code = c, Scale = 2, Symbol = lira\<rparr>\<rparr> \<and>
   Money_String initFormat \<lparr>amount = 21229, currency = \<lparr>Code = c, Scale = 2, Symbol = lira\<rparr>\<rparr>
     = lira @ ''212.29''"
  by (simp add: Money_SubtractPercent_def Money_AddPercent_def SubtractPercent_example
        AddPercent_example String_21229)

lemma percentMultiplier_wraps:
  "percentMultiplier MaxInt64 True = Inr \<lparr>neg = True, coef = 9223372036854775709, dscale = 2\<rparr>"
  by (simp add: percentMultiplier_def MaxInt64_def decimal_eval)

section \<open>The format configuration\<close>

lemma RuneCount_nonempty: "s \<noteq> [] \<Longrightarrow> 1 \<le> RuneCountInString s"
  by (cases s) simp_all

lemma validateFormat_iff: "validateFormat cfg = None \<longleftrightarrow> \<not> violatesRule cfg"
proof -
  have d: "DecimalSeparator cfg \<noteq> [] \<Longrightarrow>
      RuneCountInString (DecimalSeparator cfg) \<noteq> 1 \<longleftrightarrow> 1 < RuneCountInString (DecimalSeparator cfg)"
    using RuneCount_nonempty[of "DecimalSeparator cfg"] by auto
  have t: "ThousandsSeparator cfg \<noteq> [] \<and> RuneCountInString (ThousandsSeparator cfg) \<noteq> 1
       \<longleftrightarrow> 1 < RuneCountInString (ThousandsSeparator cfg)"
    using RuneCount_nonempty[of "ThousandsSeparator cfg"] by (cases "ThousandsSeparator cfg = []") auto
  show ?thesis
    unfolding validateFormat_def violatesRule_def using d t by auto
qed

lemma validateFormat_error: "validateFormat cfg = Some e \<Longrightarrow> e = ErrInvalidOperation"
  by (auto simp: validateFormat_def split: if_splits)

lemma validateFormat_violates: "violatesRule cfg \<Longrightarrow> validateFormat cfg = Some ErrInvalidOperation"
proof -
  assume "violatesRule cfg"
  then have "validateFormat cfg \<noteq> None" by (simp add: validateFormat_iff)
  then obtain e where "validateFormat cfg = Some e" by auto
  then show ?thesis using validateFormat_error by blast
qed

lemma validateFormat_initFormat: "validateFormat initFormat = None"
  by (simp add: validateFormat_def initFormat_def runeWidth_def SymbolPrefix_def SymbolUseCurrencySymbol_def
        SymbolUseCustom_def)

lemma SetFormat_valid: "validateFormat st = None \<Longrightarrow> validateFormat (snd (SetFormat cfg st)) = None"
  by (cases "validateFormat cfg") (simp_all add: SetFormat_def)

lemma runSetFormat_valid:
  "validateFormat st = None \<Longrightarrow> validateFormat (runSetFormat cfgs st) = None"
  by (induction cfgs arbitrary: st) (simp_all add: SetFormat_valid)

lemma runSetFormat_last:
  "runSetFormat cfgs st =
     (case filter (\<lambda>c. validateFormat c = None) cfgs of [] \<Rightarrow> st | v # vs \<Rightarrow> last (v # vs))"
proof (induction cfgs arbitrary: st)
  case Nil
  show ?case by simp
next
  case (Cons c cfgs)
  show ?case
  proof (cases "validateFormat c")
    case None
    then show ?thesis
      by (simp add: SetFormat_def Cons.IH split: list.splits)
  next
    case (Some e)
    then show ?thesis
      by (simp add: SetFormat_def Cons.IH)
  qed
qed

text \<open>
  Claim C4. After any sequence of \<open>SetFormat\<close> calls from the initial state, the
  store holds a configuration that passes validation and violates no rule; what
  \<open>DefaultFormat\<close> reads is the last configuration of the sequence that passed
  validation, or the initial default when none did. Passing validation is the same
  as violating no rule. A configuration that violates a rule is rejected by
  \<open>SetFormat\<close>, which leaves the state as it was, and by \<open>Format\<close>; and any
  rejected \<open>SetFormat\<close> call leaves the state unchanged.
\<close>

theorem C4_store_holds_valid:
  "validateFormat (runSetFormat cfgs initFormat) = None \<and>
   \<not> violatesRule (runSetFormat cfgs initFormat) \<and>
   DefaultFormat (runSetFormat cfgs initFormat) =
     (case filter (\<lambda>c. validateFormat c = None) cfgs of [] \<Rightarrow> initFormat | v # vs \<Rightarrow> last (v # vs)) \<and>
   (validateFormat cfg = None \<longleftrightarrow> \<not> violatesRule cfg) \<and>
   (violatesRule cfg \<longrightarrow>
      SetFormat cfg st = (Some ErrInvalidOperation, st) \<and> Format m cfg = Inl ErrInvalidOperation) \<and>
   (fst (SetFormat cfg st) \<noteq> None \<longrightarrow> snd (SetFormat cfg st) = st)"
proof (intro conjI impI)
  show v: "validateFormat (runSetFormat cfgs initFormat) = None"
    using validateFormat_initFormat by (rule runSetFormat_valid)
  then show "\<not> violatesRule (runSetFormat cfgs initFormat)"
    by (simp add: validateFormat_iff)
  show "DefaultFormat (runSetFormat cfgs initFormat) =
     (case filter (\<lambda>c. validateFormat c = None) cfgs of [] \<Rightarrow> initFormat | v # vs \<Rightarrow> last (v # vs))"
    unfolding DefaultFormat_def by (rule runSetFormat_last)
  show "validateFormat cfg = None \<longleftrightarrow> \<not> violatesRule cfg"
    by (rule validateFormat_iff)
next
  assume "violatesRule cfg"
  then have e: "validateFormat cfg = Some ErrInvalidOperation"
    by (rule validateFormat_violates)
  show "SetFormat cfg st = (Some ErrInvalidOperation, st)"
    by (simp add: SetFormat_def e)
  show "Format m cfg = Inl ErrInvalidOperation"
    by (simp add: Format_def e)
next
  assume "fst (SetFormat cfg st) \<noteq> None"
  then show "snd (SetFormat cfg st) = st"
    by (cases "validateFormat cfg") (simp_all add: SetFormat_def)
qed

lemma RuneCount_comma: "RuneCountInString '','' = 1"
  by (simp add: runeWidth_def)

text \<open>Witness of C4: an empty decimal separator is rejected by both paths and
  leaves the store alone; after a valid and then an invalid call the store holds
  the valid configuration.\<close>

theorem C4_witness:
  "violatesRule (initFormat\<lparr>DecimalSeparator := ''''\<rparr>) \<and>
   SetFormat (initFormat\<lparr>DecimalSeparator := ''''\<rparr>) initFormat = (Some ErrInvalidOperation, initFormat) \<and>
   Format (New 5 USD) (initFormat\<lparr>DecimalSeparator := ''''\<rparr>) = Inl ErrInvalidOperation \<and>
   fst (SetFormat (initFormat\<lparr>DecimalSeparator := ''''\<rparr>) initFormat) \<noteq> None \<and>
   snd (SetFormat (initFormat\<lparr>DecimalSeparator := ''''\<rparr>) initFormat) = initFormat \<and>
   DefaultFormat (runSetFormat [initFormat\<lparr>DecimalSeparator := '',''\<rparr>, initFormat\<lparr>DecimalSeparator := ''''\<rparr>] initFormat)
     = initFormat\<lparr>DecimalSeparator := '',''\<rparr>"
  using C4_store_holds_valid[of "[initFormat\<lparr>DecimalSeparator := '',''\<rparr>, initFormat\<lparr>DecimalSeparator := ''''\<rparr>]"
      "initFormat\<lparr>DecimalSeparator := ''''\<rparr>" initFormat "New 5 USD"]
  by (simp add: violatesRule_def validateFormat_def initFormat_def RuneCount_comma SymbolPrefix_def
        SymbolUseCurrencySymbol_def SymbolUseCustom_def)

section \<open>Rendering\<close>

lemma formatSymbol_valid:
  "validateFormat cfg = None \<Longrightarrow> formatSymbol cur cfg = Inr (symbolText cur cfg)"
  by (auto simp: validateFormat_def formatSymbol_def symbolText_def split: if_splits)

lemma position_valid:
  "validateFormat cfg = None \<Longrightarrow> SymbolPosition cfg = SymbolPrefix \<or> SymbolPosition cfg = SymbolSuffix"
  by (auto simp: validateFormat_def split: if_splits)

lemma formatWithConfig_valid:
  assumes "validateFormat cfg = None"
  shows "formatWithConfig m cfg =
     Inr (if SymbolPosition cfg = SymbolSuffix
          then signPrefix (amount m) @ amountText m cfg @ spaceText (currency m) cfg @ symbolText (currency m) cfg
          else signPrefix (amount m) @ symbolText (currency m) cfg @ spaceText (currency m) cfg @ amountText m cfg)"
  by (simp add: formatWithConfig_def formatSymbol_valid[OF assms] spaceText_def Let_def)

text \<open>The slices of \<open>groupThousands\<close> stay within bounds: the loop starts where
  the digits left come in threes, and every slice it takes has three bytes.\<close>

lemma groupThousands_start_in_bounds:
  assumes "3 < length intPart"
  defines "start \<equiv> (if length intPart mod 3 = 0 then 3 else length intPart mod 3)"
  shows "start \<le> length intPart \<and> (length intPart - start) mod 3 = 0"
  unfolding start_def using assms(1) by presburger

lemma group_loop_in_bounds:
  assumes "i < length intPart" "(length intPart - i) mod 3 = 0"
  shows "i + 3 \<le> length intPart \<and> length (take 3 (drop i intPart)) = 3 \<and>
         (length intPart - (i + 3)) mod 3 = 0"
proof -
  have "i + 3 \<le> length intPart \<and> (length intPart - (i + 3)) mod 3 = 0"
    using assms by presburger
  then show ?thesis by (auto simp: min_def)
qed

lemma natDigits_Suc0: "natDigits (Suc 0) = ''1''"
  by (subst natDigits.simps) (simp add: digitChar_def)

lemma absInt64String_105: "absInt64String (- 105) = ''105''"
  by (simp add: absInt64String_def FormatInt_def MinInt64_def natDigits_numeral natDigits_Suc0 digitChar_def)

text \<open>
  Claim C8. For every Money value and every configuration that passes validation,
  rendering succeeds; the text is sign, symbol, space, amount when the symbol is a
  prefix and sign, amount, space, symbol when it is a suffix, and the position is
  one of the two; the space is there only when the symbol is not empty and the
  configuration asks for it; for a negative amount the sign is \<open>-\<close> and it is the
  first character of the text.
\<close>

theorem C8_composition:
  assumes "validateFormat cfg = None"
  shows "\<exists>text. formatWithConfig m cfg = Inr text \<and> Format m cfg = Inr text \<and>
      (SymbolPosition cfg = SymbolPrefix \<longrightarrow>
         text = signPrefix (amount m) @ symbolText (currency m) cfg @ spaceText (currency m) cfg @ amountText m cfg) \<and>
      (SymbolPosition cfg = SymbolSuffix \<longrightarrow>
         text = signPrefix (amount m) @ amountText m cfg @ spaceText (currency m) cfg @ symbolText (currency m) cfg) \<and>
      (SymbolPosition cfg = SymbolPrefix \<or> SymbolPosition cfg = SymbolSuffix) \<and>
      (spaceText (currency m) cfg = (if symbolText (currency m) cfg \<noteq> '''' \<and> Space cfg then '' '' else '''')) \<and>
      (sint (amount m) < 0 \<longrightarrow> signPrefix (amount m) = ''-'' \<and> hd text = CHR ''-'') \<and>
      (\<not> sint (amount m) < 0 \<longrightarrow> signPrefix (amount m) = '''')"
  using position_valid[OF assms]
  by (auto simp: formatWithConfig_valid[OF assms] Format_def assms spaceText_def signPrefix_def
        SymbolPrefix_def SymbolSuffix_def)

text \<open>Witness of C8: \<open>-105\<close> at scale 2 in US dollars under the initial
  configuration renders as \<open>-$1.05\<close>.\<close>

theorem C8_witness:
  "validateFormat initFormat = None \<and> formatWithConfig (New (- 105) USD) initFormat = Inr ''-$1.05'' \<and>
   Money_String initFormat (New (- 105) USD) = ''-$1.05''"
proof -
  have a: "amountText (New (- 105) USD) initFormat = ''1.05''"
    by (simp add: amountText_def absInt64String_105 splitAmount_def initFormat_def New_def USD_def)
  have "formatWithConfig (New (- 105) USD) initFormat = Inr ''-$1.05''"
    using C8_composition[OF validateFormat_initFormat, of "New (- 105) USD"] a
    by (auto simp: initFormat_def signPrefix_def symbolText_def spaceText_def New_def USD_def
         SymbolUseCurrencySymbol_def)
  then show ?thesis
    by (simp add: validateFormat_initFormat Money_String_def DefaultFormat_def)
qed

section \<open>Percent multipliers at the end of the range\<close>

lemma newAmount_1: "newAmount 1 2 = Inr \<lparr>dec = \<lparr>neg = False, coef = 1, dscale = 2\<rparr>\<rparr>"
  by (simp add: newAmount_def decimal_eval)

lemma multiply_wrapped: "multiply \<lparr>dec = \<lparr>neg = False, coef = Suc 0, dscale = 2\<rparr>\<rparr>
     \<lparr>neg = True, coef = 9223372036854775709, dscale = 2\<rparr>
   = Inr \<lparr>dec = \<lparr>neg = True, coef = 9223372036854775709, dscale = 4\<rparr>\<rparr>"
  by (simp add: multiply_def decimal_MulExact_def decimal_eval)

lemma Round_wrapped: "Round \<lparr>neg = True, coef = 9223372036854775709, dscale = 4\<rparr> 2 = Inr (- 92233720368547757)"
  by (simp add: Round_def roundToMinor_def decimal_Round_def decimal_Int64_def decimal_eval
        combineInt64_eval inRange64_def)

text \<open>
  Claim C6 at the percent \<open>MaxInt64\<close>. \<open>base += percent\<close> wraps around: the
  multiplier built for an increase by 9223372036854775807 percent is the negative
  decimal \<open>-92233720368547757.09\<close>, not \<open>(100 + p)/100\<close>, and \<open>AddPercent\<close> on one
  cent returns \<open>-92233720368547757\<close> without a failure, where the exact result
  rounds to 92233720368547759.
\<close>

theorem C6_wraps:
  "percentMultiplier MaxInt64 True = Inr \<lparr>neg = True, coef = 9223372036854775709, dscale = 2\<rparr> \<and>
   Money_AddPercent (New 1 USD) MaxInt64 = Inr (New (- 92233720368547757) USD)"
  by (simp add: percentMultiplier_wraps Money_AddPercent_def AddPercent_def addPercent_def New_def USD_def
       newAmount_1 multiply_wrapped Round_wrapped)

lemma percentMultiplier_exact:
  assumes "inRange64 (100 + (if ad then sint p else - sint p))"
  shows "\<exists>d. percentMultiplier p ad = Inr d \<and> dscale d = 2 \<and>
           signedCoef d = 100 + (if ad then sint p else - sint p)"
proof -
  define base :: int64 where "base = (if ad then 100 + p else 100 - p)"
  have sb: "sint base = 100 + (if ad then sint p else - sint p)"
    using assms sint_add64[of 100 p] sint_sub64[of 100 p] by (auto simp: base_def)
  have "\<bar>sint base\<bar> \<le> 9223372036854775808"
    using sint_ge[of base] sint_lt[of base] by simp
  then have "\<not> maxFint < nat \<bar>sint base\<bar>" by (simp add: maxFint_def)
  then have "percentMultiplier p ad = Inr (newUnsafe (sint base < 0) (nat \<bar>sint base\<bar>) 2)"
    by (simp add: percentMultiplier_def base_def decimal_New_def newSafe_def MinScale_def MaxScale_def Let_def)
  then show ?thesis
    by (simp add: signedCoef_newUnsafe dscale_newUnsafe sb)
qed

section \<open>Division, evaluated\<close>










section \<open>What the decimal division returns\<close>




























section \<open>What Div returns\<close>







end
